theory Spec2Isabelle
  imports
    Main
    "HOL-Library.Char_ord"
    "HOL-Library.List_Lexorder"
    "HOL-Library.Multiset"
    "HOL-Library.Word"
begin

section \<open>The playlist generator \<^verbatim>\<open>generate_playlists.py\<close>\<close>

text \<open>
  The program fetches a channel catalog (gzip-compressed JSON), orders the channels and
  writes an extended-M3U playlist. The embedding below follows the source function by
  function. Python is dynamically typed, so a value handed around by the program is a
  \<open>json\<close> value (what \<^verbatim>\<open>json.loads\<close> returns), every operation that can raise
  returns \<open>exn + 'a\<close> (\<open>Inl\<close> the exception), and the effects of the program (log
  records, the output directory, the files) are a \<open>world\<close> record passed along.

  Conventions of the model:
  \<^item> a Python \<^verbatim>\<open>str\<close> is a \<open>string\<close>; each \<open>char\<close> stands for the code point of the
    same number, so the model covers the code points U+0000 to U+00FF, with Python's
    behaviour on them (\<^verbatim>\<open>lower\<close>, \<^verbatim>\<open>isdigit\<close>, \<^verbatim>\<open>int\<close>, \<^verbatim>\<open>repr\<close>);
  \<^item> a Python \<^verbatim>\<open>dict\<close> is an association list in insertion order; a dict has
    each key once, which is the predicate \<open>distinct (map fst kvs)\<close> where it matters;
  \<^item> a Python \<^verbatim>\<open>int\<close> is an \<open>int\<close>; \<^verbatim>\<open>int(s)\<close> for a string has the interpreter's limit of
    4300 digits, which \<^verbatim>\<open>json.loads\<close> has too, so the integers of a \<open>json\<close> value are
    those of at most 4300 digits, on which \<^verbatim>\<open>str\<close> does not raise;
  \<^item> a Python \<^verbatim>\<open>float\<close> is represented by what this program can observe of it: its
    truth value, the result of \<^verbatim>\<open>int(x)\<close> and the text of \<^verbatim>\<open>str(x)\<close>.
\<close>

subsection \<open>Exceptions\<close>

datatype exn =
    RequestException
  | JSONDecodeError
  | BadGzipFile
  | EOFError
  | ZlibError
  | UnicodeDecodeError
  | UnicodeEncodeError
  | OSError
  | AttributeError
  | TypeError
  | ValueError
  | OverflowError
  | KeyError

text \<open>\<^verbatim>\<open>except IOError\<close> catches \<^verbatim>\<open>OSError\<close> and its subclasses.\<close>

fun is_IOError :: "exn \<Rightarrow> bool" where
  "is_IOError OSError = True"
| "is_IOError BadGzipFile = True"
| "is_IOError RequestException = True"
| "is_IOError _ = False"

subsection \<open>Values\<close>

datatype pyfloat =
  PyFloat (float_truthy: bool) (float_int: "exn + int") (float_str: string)

datatype json =
    JNull
  | JBool bool
  | JInt int
  | JFloat pyfloat
  | JStr string
  | JArr "json list"
  | JObj "(string \<times> json) list"

subsection \<open>The built-in operations the source uses\<close>

text \<open>Truth value of a value, as tested by \<^verbatim>\<open>not data\<close> and \<^verbatim>\<open>if groups_list\<close>.\<close>

fun py_truthy :: "json \<Rightarrow> bool" where
  "py_truthy JNull = False"
| "py_truthy (JBool b) = b"
| "py_truthy (JInt n) = (n \<noteq> 0)"
| "py_truthy (JFloat f) = float_truthy f"
| "py_truthy (JStr s) = (s \<noteq> [])"
| "py_truthy (JArr xs) = (xs \<noteq> [])"
| "py_truthy (JObj kvs) = (kvs \<noteq> [])"

text \<open>\<^verbatim>\<open>sep.join(xs)\<close> on a list of strings.\<close>

fun join_str :: "string \<Rightarrow> string list \<Rightarrow> string" where
  "join_str sep [] = []"
| "join_str sep [x] = x"
| "join_str sep (x # y # ys) = x @ sep @ join_str sep (y # ys)"

text \<open>\<^verbatim>\<open>s.replace(old, new)\<close>: every occurrence of \<open>old\<close>, found from the left and not
  overlapping, becomes \<open>new\<close>; an empty \<open>old\<close> matches before every character and at
  the end.\<close>

function str_replace :: "string \<Rightarrow> string \<Rightarrow> string \<Rightarrow> string" where
  "str_replace old new [] = (if old = [] then new else [])"
| "str_replace old new (c # cs) =
     (if old = [] then new @ c # str_replace old new cs
      else if take (length old) (c # cs) = old
        then new @ str_replace old new (drop (length old) (c # cs))
      else c # str_replace old new cs)"
  by pat_completeness auto
termination
  by (relation "measure (\<lambda>(old, new, s). length s)") auto

text \<open>\<^verbatim>\<open>str(n)\<close> for an integer: its decimal digits, with a minus sign if negative.\<close>

definition digit_char :: "nat \<Rightarrow> char" where
  "digit_char d = char_of (48 + d)"

function dec_digits :: "nat \<Rightarrow> string" where
  "dec_digits n = (if n < 10 then [digit_char n] else dec_digits (n div 10) @ [digit_char (n mod 10)])"
  by pat_completeness auto
termination
  by (relation "measure (\<lambda>n. n)") auto

declare dec_digits.simps [simp del]

definition str_of_int :: "int \<Rightarrow> string" where
  "str_of_int i = (if i < 0 then CHR ''-'' # dec_digits (nat (- i)) else dec_digits (nat i))"

text \<open>\<^verbatim>\<open>repr(s)\<close> for a string: single quotes unless the string has a single quote and
  no double quote; the quote, the backslash and the characters that are not printable
  are escaped.\<close>

definition hex_digit :: "nat \<Rightarrow> char" where
  "hex_digit d = (if d < 10 then char_of (48 + d) else char_of (87 + d))"

definition is_printable :: "char \<Rightarrow> bool" where
  "is_printable c =
     (let n = (of_char c :: nat)
      in \<not> (n < 32 \<or> (127 \<le> n \<and> n \<le> 160) \<or> n = 173))"

definition repr_char :: "char \<Rightarrow> char \<Rightarrow> string" where
  "repr_char q c =
     (if c = q \<or> c = CHR 0x5C then [CHR 0x5C, c]
      else if c = CHR 0x09 then [CHR 0x5C, CHR ''t'']
      else if c = CHR 0x0A then [CHR 0x5C, CHR ''n'']
      else if c = CHR 0x0D then [CHR 0x5C, CHR ''r'']
      else if is_printable c then [c]
      else [CHR 0x5C, CHR ''x'', hex_digit (of_char c div 16), hex_digit (of_char c mod 16)])"

definition repr_str :: "string \<Rightarrow> string" where
  "repr_str s =
     (let q = (if CHR 0x27 \<in> set s \<and> CHR 0x22 \<notin> set s then CHR 0x22 else CHR 0x27)
      in q # concat (map (repr_char q) s) @ [q])"

text \<open>\<^verbatim>\<open>repr(v)\<close> and \<^verbatim>\<open>str(v)\<close>; an f-string field \<^verbatim>\<open>{v}\<close> is \<^verbatim>\<open>str(v)\<close>.\<close>

fun py_repr :: "json \<Rightarrow> string" where
  "py_repr JNull = ''None''"
| "py_repr (JBool b) = (if b then ''True'' else ''False'')"
| "py_repr (JInt n) = str_of_int n"
| "py_repr (JFloat f) = float_str f"
| "py_repr (JStr s) = repr_str s"
| "py_repr (JArr xs) = ''['' @ join_str '', '' (map py_repr xs) @ '']''"
| "py_repr (JObj kvs) =
     ''{'' @ join_str '', '' (map (\<lambda>kv. repr_str (fst kv) @ '': '' @ py_repr (snd kv)) kvs) @ ''}''"

fun py_str :: "json \<Rightarrow> string" where
  "py_str (JStr s) = s"
| "py_str v = py_repr v"

text \<open>\<^verbatim>\<open>s.isdigit()\<close>: the string is not empty and every character is a digit; below
  U+0100 the digits are \<^verbatim>\<open>0\<close> to \<^verbatim>\<open>9\<close> and the superscripts U+00B2, U+00B3, U+00B9.\<close>

definition is_digit_char :: "char \<Rightarrow> bool" where
  "is_digit_char c =
     (let n = (of_char c :: nat) in (48 \<le> n \<and> n \<le> 57) \<or> n = 178 \<or> n = 179 \<or> n = 185)"

definition str_isdigit :: "string \<Rightarrow> bool" where
  "str_isdigit s = (s \<noteq> [] \<and> list_all is_digit_char s)"

text \<open>\<^verbatim>\<open>v.replace(old, new)\<close>: only a string has the method.\<close>

fun py_replace :: "json \<Rightarrow> string \<Rightarrow> string \<Rightarrow> exn + string" where
  "py_replace (JStr s) old new = Inr (str_replace old new s)"
| "py_replace _ old new = Inl AttributeError"

subsection \<open>\<^verbatim>\<open>format_extinf\<close>\<close>

definition format_extinf ::
  "json \<Rightarrow> json \<Rightarrow> json \<Rightarrow> json \<Rightarrow> json \<Rightarrow> json \<Rightarrow> json \<Rightarrow> exn + string" where
  "format_extinf channel_id tvg_id tvg_chno tvg_name tvg_logo group_title display_name =
     (let chno_str =
            (if tvg_chno \<noteq> JNull \<and> str_isdigit (py_str tvg_chno) then py_str tvg_chno else [])
      in case py_replace tvg_name [CHR 0x22] [CHR 0x27] of
           Inl e \<Rightarrow> Inl e
         | Inr sanitized_tvg_name \<Rightarrow>
      (case py_replace group_title [CHR 0x22] [CHR 0x27] of
           Inl e \<Rightarrow> Inl e
         | Inr sanitized_group_title \<Rightarrow>
      (case py_replace display_name '','' [] of
           Inl e \<Rightarrow> Inl e
         | Inr sanitized_display_name \<Rightarrow>
           Inr (''#EXTINF:-1 ''
                @ ''channel-id=\"'' @ py_str channel_id @ ''\" ''
                @ ''tvg-id=\"'' @ py_str tvg_id @ ''\" ''
                @ ''tvg-chno=\"'' @ chno_str @ ''\" ''
                @ ''tvg-name=\"'' @ sanitized_tvg_name @ ''\" ''
                @ ''tvg-logo=\"'' @ py_str tvg_logo @ ''\" ''
                @ ''group-title=\"'' @ sanitized_group_title @ ''\",''
                @ sanitized_display_name @ [CHR 0x0A]))))"

subsection \<open>More built-in operations: \<^verbatim>\<open>int\<close>, dictionaries, membership, \<^verbatim>\<open>sorted\<close>\<close>

text \<open>\<^verbatim>\<open>int(s)\<close> for a string: white space around the number is dropped, then comes an
  optional sign and decimal digits, where single underscores may stand between digits.
  A number of more than 4300 digits is refused (the interpreter's limit on the conversion;
  leading zeros count, underscores and the sign do not).\<close>

definition int_max_str_digits :: nat where
  "int_max_str_digits = 4300"

definition is_int_space :: "char \<Rightarrow> bool" where
  "is_int_space c =
     (let n = (of_char c :: nat) in (9 \<le> n \<and> n \<le> 13) \<or> n = 32 \<or> n = 133 \<or> n = 160)"

definition is_dec_char :: "char \<Rightarrow> bool" where
  "is_dec_char c = (let n = (of_char c :: nat) in 48 \<le> n \<and> n \<le> 57)"

definition dec_val :: "char \<Rightarrow> nat" where
  "dec_val c = of_char c - 48"

fun int_digits :: "nat \<Rightarrow> string \<Rightarrow> nat option" where
  "int_digits acc [] = Some acc"
| "int_digits acc (c # cs) =
     (if is_dec_char c then int_digits (10 * acc + dec_val c) cs
      else if c = CHR ''_'' then
        (case cs of
           [] \<Rightarrow> None
         | d # ds \<Rightarrow> if is_dec_char d then int_digits (10 * acc + dec_val d) ds else None)
      else None)"

definition int_unsigned :: "string \<Rightarrow> nat option" where
  "int_unsigned s =
     (case s of
        [] \<Rightarrow> None
      | c # cs \<Rightarrow> if is_dec_char c then int_digits (dec_val c) cs else None)"

definition int_of_str :: "string \<Rightarrow> exn + int" where
  "int_of_str s =
     (let t = rev (dropWhile is_int_space (rev (dropWhile is_int_space s)));
          r = (case t of
                 [] \<Rightarrow> None
               | c # cs \<Rightarrow>
                   if c = CHR ''-'' then map_option (\<lambda>n. - int n) (int_unsigned cs)
                   else if c = CHR ''+'' then map_option int (int_unsigned cs)
                   else map_option int (int_unsigned t))
      in case r of
           None \<Rightarrow> Inl ValueError
         | Some i \<Rightarrow>
             if int_max_str_digits < length (filter is_dec_char t) then Inl ValueError
             else Inr i)"

fun py_int :: "json \<Rightarrow> exn + int" where
  "py_int (JInt n) = Inr n"
| "py_int (JBool b) = Inr (if b then 1 else 0)"
| "py_int (JFloat f) = float_int f"
| "py_int (JStr s) = int_of_str s"
| "py_int _ = Inl TypeError"

text \<open>\<^verbatim>\<open>d.get(key, default)\<close>, \<^verbatim>\<open>d[key]\<close> and \<^verbatim>\<open>d.keys()\<close>: only a dict has the methods
  and only a dict is indexed by a string.\<close>

definition dict_get :: "(string \<times> json) list \<Rightarrow> string \<Rightarrow> json \<Rightarrow> json" where
  "dict_get kvs k d = (case map_of kvs k of None \<Rightarrow> d | Some v \<Rightarrow> v)"

fun py_get :: "json \<Rightarrow> string \<Rightarrow> json \<Rightarrow> exn + json" where
  "py_get (JObj kvs) k d = Inr (dict_get kvs k d)"
| "py_get _ k d = Inl AttributeError"

fun py_getitem :: "json \<Rightarrow> string \<Rightarrow> exn + json" where
  "py_getitem (JObj kvs) k = (case map_of kvs k of None \<Rightarrow> Inl KeyError | Some v \<Rightarrow> Inr v)"
| "py_getitem _ k = Inl TypeError"

fun py_keys :: "json \<Rightarrow> exn + string list" where
  "py_keys (JObj kvs) = Inr (map fst kvs)"
| "py_keys _ = Inl AttributeError"

text \<open>\<^verbatim>\<open>s in v\<close> for a string \<open>s\<close>: a key of a dict, an element of a list, a substring
  of a string; a number, a boolean and \<^verbatim>\<open>None\<close> are not iterable.\<close>

fun is_substring :: "string \<Rightarrow> string \<Rightarrow> bool" where
  "is_substring s [] = (s = [])"
| "is_substring s (c # cs) = (take (length s) (c # cs) = s \<or> is_substring s cs)"

fun py_in :: "string \<Rightarrow> json \<Rightarrow> exn + bool" where
  "py_in s (JObj kvs) = Inr (s \<in> set (map fst kvs))"
| "py_in s (JArr xs) = Inr (JStr s \<in> set xs)"
| "py_in s (JStr t) = Inr (is_substring s t)"
| "py_in s _ = Inl TypeError"

text \<open>\<^verbatim>\<open>', '.join(v)\<close>: the elements of a list must be strings; a string is joined
  character by character and a dict by its keys; other values are not iterable.\<close>

fun the_strs :: "json list \<Rightarrow> string list option" where
  "the_strs [] = Some []"
| "the_strs (JStr s # vs) = map_option ((#) s) (the_strs vs)"
| "the_strs (_ # vs) = None"

fun py_join :: "string \<Rightarrow> json \<Rightarrow> exn + string" where
  "py_join sep (JArr xs) =
     (case the_strs xs of None \<Rightarrow> Inl TypeError | Some ss \<Rightarrow> Inr (join_str sep ss))"
| "py_join sep (JStr s) = Inr (join_str sep (map (\<lambda>c. [c]) s))"
| "py_join sep (JObj kvs) = Inr (join_str sep (map fst kvs))"
| "py_join sep _ = Inl TypeError"

text \<open>\<^verbatim>\<open>s.lower()\<close>; below U+0100 the upper-case letters are \<^verbatim>\<open>A\<close> to \<^verbatim>\<open>Z\<close> and
  U+00C0 to U+00DE without U+00D7, each 32 below its lower-case letter.\<close>

definition lower_char :: "char \<Rightarrow> char" where
  "lower_char c =
     (let n = (of_char c :: nat)
      in if (65 \<le> n \<and> n \<le> 90) \<or> (192 \<le> n \<and> n \<le> 222 \<and> n \<noteq> 215) then char_of (n + 32) else c)"

definition str_lower :: "string \<Rightarrow> string" where
  "str_lower s = map lower_char s"

fun py_lower :: "json \<Rightarrow> exn + string" where
  "py_lower (JStr s) = Inr (str_lower s)"
| "py_lower _ = Inl AttributeError"

text \<open>\<^verbatim>\<open>sorted(xs, key=f)\<close>: the key of every element is computed first, in the order of
  the list, and the first exception ends the call; then the elements are sorted by
  their keys, elements with equal keys keeping their order (the sort is stable).\<close>

fun eval_keys :: "('a \<Rightarrow> exn + 'k) \<Rightarrow> 'a list \<Rightarrow> exn + 'k list" where
  "eval_keys f [] = Inr []"
| "eval_keys f (x # xs) =
     (case f x of
        Inl e \<Rightarrow> Inl e
      | Inr k \<Rightarrow> (case eval_keys f xs of Inl e \<Rightarrow> Inl e | Inr ks \<Rightarrow> Inr (k # ks)))"

definition py_sorted :: "('a \<Rightarrow> exn + 'k::linorder) \<Rightarrow> 'a list \<Rightarrow> exn + 'a list" where
  "py_sorted f xs =
     (case eval_keys f xs of
        Inl e \<Rightarrow> Inl e
      | Inr ks \<Rightarrow> Inr (map snd (sort_key fst (zip ks xs))))"

subsection \<open>Running a sequence of operations that may raise\<close>

definition bind_exn :: "exn + 'a \<Rightarrow> ('a \<Rightarrow> exn + 'b) \<Rightarrow> exn + 'b" where
  "bind_exn r f = (case r of Inl e \<Rightarrow> Inl e | Inr v \<Rightarrow> f v)"

subsection \<open>The world: log records, directories, files\<close>

datatype level = INFO | WARNING | ERROR

text \<open>A log record is its level and its message; where the source interpolates the
  text of an exception (\<^verbatim>\<open>{e}\<close>) the message stops before it.\<close>

record world =
  logs :: "(level \<times> string) list"
  dirs :: "string set"
  files :: "string \<rightharpoonup> string"

definition log :: "level \<Rightarrow> string \<Rightarrow> world \<Rightarrow> world" where
  "log lvl msg w = w\<lparr>logs := logs w @ [(lvl, msg)]\<rparr>"

text \<open>\<^verbatim>\<open>os.path.exists(p)\<close>: there is a directory or a file of that name.\<close>

definition path_exists :: "world \<Rightarrow> string \<Rightarrow> bool" where
  "path_exists w p = (p \<in> dirs w \<or> files w p \<noteq> None)"

subsection \<open>The environment: network, codecs, file system\<close>

type_synonym bytes = "8 word list"

record response =
  status_code :: nat
  content :: bytes

text \<open>What is left of a file after \<^verbatim>\<open>open(path, 'w')\<close>, \<^verbatim>\<open>write\<close> and close: on success
  the whole content; on failure the exception and the file as it is then (\<open>None\<close>: the
  file was not touched, \<open>Some s\<close>: it now holds \<open>s\<close>).\<close>

datatype write_outcome = WriteOk | WriteFailed exn "string option"

text \<open>The library calls of the program, as functions of their arguments:
  \<^verbatim>\<open>requests.get(url, headers, timeout, stream)\<close> with the reading of the body,
  \<^verbatim>\<open>gzip.GzipFile(...).read()\<close>, \<^verbatim>\<open>bytes.decode('utf-8')\<close>, \<^verbatim>\<open>json.loads\<close>,
  \<^verbatim>\<open>os.makedirs\<close> and the writing of a text file.\<close>

record env =
  http_get :: "string \<Rightarrow> (string \<times> string) list option \<Rightarrow> bool \<Rightarrow> exn + response"
  gunzip :: "bytes \<Rightarrow> exn + bytes"
  utf8_decode :: "bytes \<Rightarrow> exn + string"
  json_loads :: "string \<Rightarrow> exn + json"
  makedirs :: "string \<Rightarrow> exn option"
  write_file :: "string \<Rightarrow> string \<Rightarrow> write_outcome"

subsection \<open>\<^verbatim>\<open>fetch_url\<close>\<close>

text \<open>The value \<^verbatim>\<open>fetch_url\<close> returns: the live response in stream mode, otherwise a
  value: the parsed JSON, the text as a string, or \<^verbatim>\<open>None\<close> (\<open>JNull\<close>) on failure.\<close>

datatype fetched = Value json | Stream response

text \<open>Lines 28 to 44: the body as text. In the handler of \<^verbatim>\<open>BadGzipFile\<close> the variable
  \<^verbatim>\<open>content\<close> holds the bytes it had when the exception was raised.\<close>

definition decode_content :: "env \<Rightarrow> bool \<Rightarrow> bytes \<Rightarrow> world \<Rightarrow> (exn + string) \<times> world" where
  "decode_content env is_gzipped body w =
     (if is_gzipped then
        (let w1 = log INFO ''Decompressing gzipped content.'' w;
             (cur, r) = (case gunzip env body of
                           Inl e \<Rightarrow> (body, Inl e)
                         | Inr raw \<Rightarrow> (raw, utf8_decode env raw))
         in case r of
              Inr text \<Rightarrow> (Inr text, w1)
            | Inl e \<Rightarrow>
                if e = BadGzipFile
                then (utf8_decode env cur,
                      log WARNING ''Content was not gzipped, trying as plain text.'' w1)
                else (Inl e, log ERROR ''Error decompressing gzip: '' w1))
      else (utf8_decode env body, w))"

text \<open>\<^verbatim>\<open>response.raise_for_status()\<close>: a status from 400 to 599 raises \<^verbatim>\<open>HTTPError\<close>, which
  is a \<^verbatim>\<open>RequestException\<close>.\<close>

definition raise_for_status :: "response \<Rightarrow> exn option" where
  "raise_for_status resp =
     (if 400 \<le> status_code resp \<and> status_code resp < 600 then Some RequestException else None)"

text \<open>Lines 21 to 51: the body of the \<^verbatim>\<open>try\<close> statement.\<close>

definition fetch_try ::
  "env \<Rightarrow> string \<Rightarrow> bool \<Rightarrow> bool \<Rightarrow> (string \<times> string) list option \<Rightarrow> bool \<Rightarrow> world
     \<Rightarrow> (exn + fetched) \<times> world" where
  "fetch_try env url is_json is_gzipped headers stream w =
     (case http_get env url headers stream of
        Inl e \<Rightarrow> (Inl e, w)
      | Inr resp \<Rightarrow>
          (case raise_for_status resp of
             Some e \<Rightarrow> (Inl e, w)
           | None \<Rightarrow>
               if stream then (Inr (Stream resp), log INFO ''Returning streaming response.'' w)
               else
                 (case decode_content env is_gzipped (content resp) w of
                    (Inl e, w1) \<Rightarrow> (Inl e, w1)
                  | (Inr text, w1) \<Rightarrow>
                      if is_json then
                        (case json_loads env text of
                           Inl e \<Rightarrow> (Inl e, log INFO ''Parsing JSON data.'' w1)
                         | Inr v \<Rightarrow> (Inr (Value v), log INFO ''Parsing JSON data.'' w1))
                      else (Inr (Value (JStr text)), log INFO ''Returning raw text content.'' w1))))"

definition fetch_url ::
  "env \<Rightarrow> string \<Rightarrow> bool \<Rightarrow> bool \<Rightarrow> (string \<times> string) list option \<Rightarrow> bool \<Rightarrow> world
     \<Rightarrow> fetched \<times> world" where
  "fetch_url env url is_json is_gzipped headers stream w =
     (case fetch_try env url is_json is_gzipped headers stream (log INFO (''Fetching URL: '' @ url) w) of
        (Inr r, w1) \<Rightarrow> (r, w1)
      | (Inl e, w1) \<Rightarrow>
          if e = RequestException then
            (Value JNull, log ERROR (''Error fetching '' @ url @ '': '') w1)
          else if e = JSONDecodeError then
            (Value JNull, log ERROR (''Error decoding JSON from '' @ url @ '': '') w1)
          else
            (Value JNull, log ERROR (''An unexpected error occurred for '' @ url @ '': '') w1))"

subsection \<open>\<^verbatim>\<open>write_m3u_file\<close>\<close>

definition OUTPUT_DIR :: string where
  "OUTPUT_DIR = ''playlists''"

text \<open>\<^verbatim>\<open>os.path.join(a, b)\<close> on a POSIX system.\<close>

definition path_join :: "string \<Rightarrow> string \<Rightarrow> string" where
  "path_join a b =
     (if b \<noteq> [] \<and> hd b = CHR ''/'' then b
      else if a = [] \<or> last a = CHR ''/'' then a @ b
      else a @ ''/'' @ b)"

text \<open>The result of each step is the exception that leaves it, if any, and the new
  world. Lines 65 to 67: the output directory is made if nothing of its name exists; an
  exception of \<^verbatim>\<open>os.makedirs\<close> is not caught.\<close>

definition ensure_output_dir :: "env \<Rightarrow> world \<Rightarrow> exn option \<times> world" where
  "ensure_output_dir env w =
     (if \<not> path_exists w OUTPUT_DIR then
        (case makedirs env OUTPUT_DIR of
           Some e \<Rightarrow> (Some e, log INFO (''Creating output directory: '' @ OUTPUT_DIR) w)
         | None \<Rightarrow>
             (None, (log INFO (''Creating output directory: '' @ OUTPUT_DIR) w)
                      \<lparr>dirs := insert OUTPUT_DIR (dirs w)\<rparr>))
      else (None, w))"

text \<open>Lines 70 to 75: the \<^verbatim>\<open>try\<close> statement; \<^verbatim>\<open>except IOError\<close> catches an \<^verbatim>\<open>OSError\<close>,
  any other exception leaves the function.\<close>

definition write_text :: "env \<Rightarrow> string \<Rightarrow> string \<Rightarrow> world \<Rightarrow> exn option \<times> world" where
  "write_text env filepath text w =
     (case write_file env filepath text of
        WriteOk \<Rightarrow>
          (None, log INFO (''Successfully wrote playlist to '' @ filepath)
                   (w\<lparr>files := (files w)(filepath \<mapsto> text)\<rparr>))
      | WriteFailed e left \<Rightarrow>
          (let w1 = (case left of
                       None \<Rightarrow> w
                     | Some t \<Rightarrow> w\<lparr>files := (files w)(filepath \<mapsto> t)\<rparr>)
           in if is_IOError e
              then (None, log ERROR (''Error writing file '' @ filepath @ '': '') w1)
              else (Some e, w1)))"

definition write_m3u_file :: "env \<Rightarrow> string \<Rightarrow> string \<Rightarrow> world \<Rightarrow> exn option \<times> world" where
  "write_m3u_file env filename text w =
     (case ensure_output_dir env w of
        (Some e, w1) \<Rightarrow> (Some e, w1)
      | (None, w1) \<Rightarrow> write_text env (path_join OUTPUT_DIR filename) text w1)"

subsection \<open>\<^verbatim>\<open>generate_stirr_m3u\<close>\<close>

definition STIRR_URL :: string where
  "STIRR_URL = ''https://github.com/matthuisman/i.mjh.nz/raw/refs/heads/master/Stirr/.channels.json.gz''"

definition STREAM_URL_TEMPLATE :: string where
  "STREAM_URL_TEMPLATE = ''https://jmp2.uk/str-{id}.m3u8''"

definition EPG_URL :: string where
  "EPG_URL = ''https://github.com/matthuisman/i.mjh.nz/raw/master/Stirr/all.xml.gz''"

text \<open>Line 109: the header line.\<close>

definition header_line :: string where
  "header_line = ''#EXTM3U url-tvg=\"'' @ EPG_URL @ ''\"'' @ [CHR 0x0A]"

text \<open>Lines 115 and 117: the two sort keys, the \<^verbatim>\<open>lambda k\<close> of each branch.\<close>

definition chno_key :: "json \<Rightarrow> string \<Rightarrow> exn + int" where
  "chno_key channels_to_process k =
     bind_exn (py_getitem channels_to_process k) (\<lambda>channel.
     bind_exn (py_get channel ''chno'' (JInt 99999)) py_int)"

definition name_key :: "json \<Rightarrow> string \<Rightarrow> exn + string" where
  "name_key channels_to_process k =
     bind_exn (py_getitem channels_to_process k) (\<lambda>channel.
     bind_exn (py_get channel ''name'' (JStr [])) py_lower)"

text \<open>Lines 114 to 117: the body of the \<^verbatim>\<open>try\<close> statement.\<close>

definition sorted_channel_ids :: "json \<Rightarrow> string \<Rightarrow> exn + string list" where
  "sorted_channel_ids channels_to_process sort_arg =
     (if sort_arg = ''chno''
      then bind_exn (py_keys channels_to_process) (py_sorted (chno_key channels_to_process))
      else bind_exn (py_keys channels_to_process) (py_sorted (name_key channels_to_process)))"

text \<open>Lines 113 to 120: the order of the channels, and whether the sort failed (then a
  warning is logged and the order is that of \<^verbatim>\<open>keys()\<close>, which may raise in turn).\<close>

definition channel_order :: "json \<Rightarrow> string \<Rightarrow> bool \<times> (exn + string list)" where
  "channel_order channels_to_process sort_arg =
     (case sorted_channel_ids channels_to_process sort_arg of
        Inr ids \<Rightarrow> (False, Inr ids)
      | Inl e \<Rightarrow> (True, py_keys channels_to_process))"

text \<open>Line 129: the group title.\<close>

definition group_title_of :: "json \<Rightarrow> exn + string" where
  "group_title_of groups_list =
     (if py_truthy groups_list then py_join '', '' groups_list else Inr ''Uncategorized'')"

text \<open>Lines 124 to 135: the two lines of one channel.\<close>

definition stream_url :: "string \<Rightarrow> string" where
  "stream_url channel_id = str_replace ''{id}'' channel_id STREAM_URL_TEMPLATE"

definition channel_lines :: "json \<Rightarrow> string \<Rightarrow> exn + string list" where
  "channel_lines channels_to_process channel_id =
     bind_exn (py_getitem channels_to_process channel_id) (\<lambda>channel.
     bind_exn (py_get channel ''chno'' JNull) (\<lambda>chno.
     bind_exn (py_get channel ''name'' (JStr ''Unknown Channel'')) (\<lambda>name.
     bind_exn (py_get channel ''logo'' (JStr [])) (\<lambda>logo.
     bind_exn (py_get channel ''groups'' (JArr [])) (\<lambda>groups_list.
     bind_exn (group_title_of groups_list) (\<lambda>group_title.
     bind_exn (format_extinf (JStr channel_id) (JStr channel_id) chno name logo
                 (JStr group_title) name) (\<lambda>extinf.
     Inr [extinf, stream_url channel_id @ [CHR 0x0A]])))))))"

text \<open>Lines 123 to 135: the loop; the lines appended to \<^verbatim>\<open>output_lines\<close>.\<close>

fun build_entries :: "json \<Rightarrow> string list \<Rightarrow> exn + string list" where
  "build_entries channels_to_process [] = Inr []"
| "build_entries channels_to_process (channel_id # ids) =
     bind_exn (channel_lines channels_to_process channel_id) (\<lambda>ls.
     bind_exn (build_entries channels_to_process ids) (\<lambda>rest. Inr (ls @ rest)))"

text \<open>Lines 109 to 137, for a catalog \<open>data\<close> that passed the test of line 105: whether
  the sort failed, and the text handed to \<^verbatim>\<open>write_m3u_file\<close> or the exception raised
  on the way.\<close>

definition stirr_playlist :: "json \<Rightarrow> string \<Rightarrow> bool \<times> (exn + string)" where
  "stirr_playlist data sort_arg =
     (case py_get data ''channels'' (JObj []) of
        Inl e \<Rightarrow> (False, Inl e)
      | Inr channels_to_process \<Rightarrow>
          (let (failed, order) = channel_order channels_to_process sort_arg
           in (failed,
               bind_exn order (\<lambda>sorted_ids.
               bind_exn (build_entries channels_to_process sorted_ids) (\<lambda>ls.
               Inr (concat (header_line # ls)))))))"

text \<open>Line 105: \<^verbatim>\<open>not data or 'channels' not in data\<close>.\<close>

definition no_channels :: "json \<Rightarrow> exn + bool" where
  "no_channels data =
     (if \<not> py_truthy data then Inr True
      else bind_exn (py_in ''channels'' data) (\<lambda>b. Inr (\<not> b)))"

text \<open>The function itself. It calls \<^verbatim>\<open>fetch_url\<close> without \<^verbatim>\<open>stream\<close>, so the result is a
  value; a response object would have no element \<^verbatim>\<open>'channels'\<close>.\<close>

definition generate_stirr_m3u :: "env \<Rightarrow> string \<Rightarrow> world \<Rightarrow> exn option \<times> world" where
  "generate_stirr_m3u env sort_arg w =
     (case fetch_url env STIRR_URL True True None False
             (log INFO ''--- Generating Stirr playlist ---'' w) of
        (Stream r, w1) \<Rightarrow> (None, log ERROR ''Failed to fetch or parse Stirr data.'' w1)
      | (Value data, w1) \<Rightarrow>
          (case no_channels data of
             Inl e \<Rightarrow> (Some e, w1)
           | Inr True \<Rightarrow> (None, log ERROR ''Failed to fetch or parse Stirr data.'' w1)
           | Inr False \<Rightarrow>
               (let (failed, r) = stirr_playlist data sort_arg;
                    w2 = (if failed
                          then log WARNING ''Sorting failed for Stirr, using default order. Error: '' w1
                          else w1)
                in case r of
                     Inl e \<Rightarrow> (Some e, w2)
                   | Inr text \<Rightarrow> write_m3u_file env ''stirr_all.m3u'' text w2)))"

section \<open>Notions used to state the properties\<close>

text \<open>The lines of a text: each line ends with its line feed; a last piece without a
  line feed is a line too.\<close>

fun split_lines :: "string \<Rightarrow> string \<Rightarrow> string list" where
  "split_lines cur [] = (if cur = [] then [] else [cur])"
| "split_lines cur (c # cs) =
     (if c = CHR 0x0A then (cur @ [c]) # split_lines [] cs else split_lines (cur @ [c]) cs)"

definition text_lines :: "string \<Rightarrow> string list" where
  "text_lines s = split_lines [] s"


text \<open>An empty world, and an environment in which every library call has a fixed
  outcome: the request is answered with status 200 and a two-byte body.\<close>

definition world0 :: world where
  "world0 = \<lparr>logs = [], dirs = {}, files = Map.empty\<rparr>"

definition fixed_env ::
  "exn + bytes \<Rightarrow> exn + string \<Rightarrow> exn + json \<Rightarrow> exn option \<Rightarrow> write_outcome \<Rightarrow> env" where
  "fixed_env gz txt js mk wr =
     \<lparr>http_get = (\<lambda>url headers stream. Inr \<lparr>status_code = 200, content = [0x1f, 0x8b]\<rparr>),
      gunzip = (\<lambda>b. gz),
      utf8_decode = (\<lambda>b. txt),
      json_loads = (\<lambda>s. js),
      makedirs = (\<lambda>d. mk),
      write_file = (\<lambda>p t. wr)\<rparr>"

text \<open>A field of the record of channel \<open>k\<close> in the mapping \<open>kvs\<close> of a catalog, if the
  record is an object and has the field.\<close>

definition channel_field :: "(string \<times> json) list \<Rightarrow> string \<Rightarrow> string \<Rightarrow> json option" where
  "channel_field kvs k fld = (case map_of kvs k of Some (JObj f) \<Rightarrow> map_of f fld | _ \<Rightarrow> None)"

text \<open>The number a channel is ordered by under the key \<^verbatim>\<open>chno\<close>: its channel number as
  an integer, 99999 without one. The lower-case name it is ordered by under the key
  \<^verbatim>\<open>name\<close>: empty without a name.\<close>

definition chno_number :: "(string \<times> json) list \<Rightarrow> string \<Rightarrow> int" where
  "chno_number kvs k =
     (case channel_field kvs k ''chno'' of
        None \<Rightarrow> 99999
      | Some v \<Rightarrow> (case py_int v of Inr n \<Rightarrow> n | Inl e \<Rightarrow> 99999))"

definition lower_name :: "(string \<times> json) list \<Rightarrow> string \<Rightarrow> string" where
  "lower_name kvs k =
     (case channel_field kvs k ''name'' of Some (JStr n) \<Rightarrow> str_lower n | _ \<Rightarrow> [])"

fun is_str :: "json \<Rightarrow> bool" where
  "is_str (JStr s) = True"
| "is_str _ = False"

fun is_obj :: "json \<Rightarrow> bool" where
  "is_obj (JObj f) = True"
| "is_obj _ = False"

text \<open>A channel record as the data model has it: an object whose name, if present, is a
  string and whose groups, if present, are a list of strings. A catalog of such records:
  \<^verbatim>\<open>None\<close>, or an object whose \<^verbatim>\<open>channels\<close>, if present, is an object of channel records.\<close>

definition channel_ok :: "json \<Rightarrow> bool" where
  "channel_ok ch =
     (case ch of
        JObj f \<Rightarrow>
          (case map_of f ''name'' of None \<Rightarrow> True | Some v \<Rightarrow> is_str v) \<and>
          (case map_of f ''groups'' of
             None \<Rightarrow> True
           | Some (JArr xs) \<Rightarrow> list_all is_str xs
           | Some _ \<Rightarrow> False)
      | _ \<Rightarrow> False)"

definition catalog_ok :: "json \<Rightarrow> bool" where
  "catalog_ok data =
     (case data of
        JNull \<Rightarrow> True
      | JObj d \<Rightarrow>
          (case map_of d ''channels'' of
             None \<Rightarrow> True
           | Some (JObj kvs) \<Rightarrow> list_all channel_ok (map snd kvs)
           | Some _ \<Rightarrow> False)
      | _ \<Rightarrow> False)"

text \<open>A line: a text that ends with a line feed and has no other. A value with a line
  feed in one of its strings.\<close>

definition one_line :: "string \<Rightarrow> bool" where
  "one_line l = (l \<noteq> [] \<and> last l = CHR 0x0A \<and> CHR 0x0A \<notin> set (butlast l))"

fun has_newline :: "json \<Rightarrow> bool" where
  "has_newline (JStr s) = (CHR 0x0A \<in> set s)"
| "has_newline (JFloat f) = (CHR 0x0A \<in> set (float_str f))"
| "has_newline (JArr xs) = list_ex has_newline xs"
| "has_newline (JObj kvs) = list_ex (\<lambda>kv. CHR 0x0A \<in> set (fst kv) \<or> has_newline (snd kv)) kvs"
| "has_newline _ = False"

text \<open>Catalogs used as examples.\<close>

definition catalog_chno :: "(string \<times> json) list" where
  "catalog_chno =
     [(''a'', JObj [(''chno'', JInt 30)]),
      (''b'', JObj [(''chno'', JInt 10)]),
      (''c'', JObj [(''chno'', JInt 20)]),
      (''d'', JObj [(''name'', JStr ''D'')])]"

definition catalog_name :: "(string \<times> json) list" where
  "catalog_name =
     [(''1'', JObj [(''name'', JStr ''zebra'')]),
      (''2'', JObj [(''name'', JStr ''Apple'')]),
      (''3'', JObj [(''chno'', JInt 3)])]"

text \<open>The metadata line without its line feed, from the seven texts that fill it.\<close>

definition extinf_body ::
  "string \<Rightarrow> string \<Rightarrow> string \<Rightarrow> string \<Rightarrow> string \<Rightarrow> string \<Rightarrow> string \<Rightarrow> string" where
  "extinf_body cid tid chno name logo grp disp =
     ''#EXTINF:-1 channel-id=\"'' @ cid
     @ ''\" tvg-id=\"'' @ tid
     @ ''\" tvg-chno=\"'' @ chno
     @ ''\" tvg-name=\"'' @ name
     @ ''\" tvg-logo=\"'' @ logo
     @ ''\" group-title=\"'' @ grp
     @ ''\",'' @ disp"

text \<open>An environment in which the fetch yields the catalog \<open>data\<close>: the library calls
  are stubs, the download, the decompression and the decoding succeed and the parser
  returns \<open>data\<close>; \<open>mk\<close> and \<open>wr\<close> are the outcomes of \<^verbatim>\<open>os.makedirs\<close> and of writing.\<close>

definition catalog_env :: "json \<Rightarrow> exn option \<Rightarrow> write_outcome \<Rightarrow> env" where
  "catalog_env data mk wr = fixed_env (Inr []) (Inr []) (Inr data) mk wr"

text \<open>The world after a successful fetch that started in \<open>world0\<close>.\<close>

definition fetched_world :: world where
  "fetched_world =
     log INFO ''Parsing JSON data.''
       (log INFO ''Decompressing gzipped content.''
         (log INFO (''Fetching URL: '' @ STIRR_URL)
           (log INFO ''--- Generating Stirr playlist ---'' world0)))"

text \<open>The catalog of \<open>catalog_name\<close> and its playlist under the key \<^verbatim>\<open>name\<close>; a catalog
  whose only channel has a line feed in its name; a catalog with a channel number that
  is no number, and its playlist in insertion order; a catalog with a name that is no
  string.\<close>

definition data_name :: json where
  "data_name = JObj [(''channels'', JObj catalog_name)]"

definition playlist_name :: string where
  "playlist_name =
     header_line
     @ ''#EXTINF:-1 channel-id=\"3\" tvg-id=\"3\" tvg-chno=\"3\" tvg-name=\"Unknown Channel\" tvg-logo=\"\" group-title=\"Uncategorized\",Unknown Channel\<newline>''
     @ ''https://jmp2.uk/str-3.m3u8\<newline>''
     @ ''#EXTINF:-1 channel-id=\"2\" tvg-id=\"2\" tvg-chno=\"\" tvg-name=\"Apple\" tvg-logo=\"\" group-title=\"Uncategorized\",Apple\<newline>''
     @ ''https://jmp2.uk/str-2.m3u8\<newline>''
     @ ''#EXTINF:-1 channel-id=\"1\" tvg-id=\"1\" tvg-chno=\"\" tvg-name=\"zebra\" tvg-logo=\"\" group-title=\"Uncategorized\",zebra\<newline>''
     @ ''https://jmp2.uk/str-1.m3u8\<newline>''"

definition data_newline :: json where
  "data_newline = JObj [(''channels'', JObj [(''a'', JObj [(''name'', JStr ''x\<newline>y'')])])]"

definition playlist_newline :: string where
  "playlist_newline =
     header_line
     @ ''#EXTINF:-1 channel-id=\"a\" tvg-id=\"a\" tvg-chno=\"\" tvg-name=\"x\<newline>y\" tvg-logo=\"\" group-title=\"Uncategorized\",x\<newline>y\<newline>''
     @ ''https://jmp2.uk/str-a.m3u8\<newline>''"

definition catalog_badchno :: "(string \<times> json) list" where
  "catalog_badchno =
     [(''a'', JObj [(''chno'', JStr ''x''), (''name'', JStr ''A'')]),
      (''b'', JObj [(''chno'', JInt 7), (''groups'', JArr [JStr ''News'', JStr ''Local''])])]"

definition data_badchno :: json where
  "data_badchno = JObj [(''channels'', JObj catalog_badchno)]"

definition entries_badchno :: "string list" where
  "entries_badchno =
     [''#EXTINF:-1 channel-id=\"a\" tvg-id=\"a\" tvg-chno=\"\" tvg-name=\"A\" tvg-logo=\"\" group-title=\"Uncategorized\",A\<newline>'',
      ''https://jmp2.uk/str-a.m3u8\<newline>'',
      ''#EXTINF:-1 channel-id=\"b\" tvg-id=\"b\" tvg-chno=\"7\" tvg-name=\"Unknown Channel\" tvg-logo=\"\" group-title=\"News, Local\",Unknown Channel\<newline>'',
      ''https://jmp2.uk/str-b.m3u8\<newline>'']"

definition playlist_badchno :: string where
  "playlist_badchno = concat (header_line # entries_badchno)"

definition data_badname :: json where
  "data_badname = JObj [(''channels'', JObj [(''a'', JObj [(''name'', JInt 5)])])]"

text \<open>The catalog of \<open>catalog_chno\<close> and its playlist under the key \<^verbatim>\<open>chno\<close>. A catalog
  with the channel numbers 10.7, 10.2 and 9.9 (each a float that is true, whose \<^verbatim>\<open>int\<close> is
  10, 10 and 9, and whose \<^verbatim>\<open>str\<close> is as written), and its playlist under the key \<^verbatim>\<open>chno\<close>.\<close>

definition data_chno :: json where
  "data_chno = JObj [(''channels'', JObj catalog_chno)]"

definition playlist_chno :: string where
  "playlist_chno =
     header_line
     @ ''#EXTINF:-1 channel-id=\"b\" tvg-id=\"b\" tvg-chno=\"10\" tvg-name=\"Unknown Channel\" tvg-logo=\"\" group-title=\"Uncategorized\",Unknown Channel\<newline>''
     @ ''https://jmp2.uk/str-b.m3u8\<newline>''
     @ ''#EXTINF:-1 channel-id=\"c\" tvg-id=\"c\" tvg-chno=\"20\" tvg-name=\"Unknown Channel\" tvg-logo=\"\" group-title=\"Uncategorized\",Unknown Channel\<newline>''
     @ ''https://jmp2.uk/str-c.m3u8\<newline>''
     @ ''#EXTINF:-1 channel-id=\"a\" tvg-id=\"a\" tvg-chno=\"30\" tvg-name=\"Unknown Channel\" tvg-logo=\"\" group-title=\"Uncategorized\",Unknown Channel\<newline>''
     @ ''https://jmp2.uk/str-a.m3u8\<newline>''
     @ ''#EXTINF:-1 channel-id=\"d\" tvg-id=\"d\" tvg-chno=\"\" tvg-name=\"D\" tvg-logo=\"\" group-title=\"Uncategorized\",D\<newline>''
     @ ''https://jmp2.uk/str-d.m3u8\<newline>''"

definition catalog_float :: "(string \<times> json) list" where
  "catalog_float =
     [(''a'', JObj [(''chno'', JFloat (PyFloat True (Inr 10) ''10.7'')), (''name'', JStr ''ten point seven'')]),
      (''b'', JObj [(''chno'', JFloat (PyFloat True (Inr 10) ''10.2'')), (''name'', JStr ''ten point two'')]),
      (''c'', JObj [(''chno'', JFloat (PyFloat True (Inr 9) ''9.9'')), (''name'', JStr ''nine point nine'')])]"

definition data_float :: json where
  "data_float = JObj [(''channels'', JObj catalog_float)]"

definition playlist_float :: string where
  "playlist_float =
     header_line
     @ ''#EXTINF:-1 channel-id=\"c\" tvg-id=\"c\" tvg-chno=\"\" tvg-name=\"nine point nine\" tvg-logo=\"\" group-title=\"Uncategorized\",nine point nine\<newline>''
     @ ''https://jmp2.uk/str-c.m3u8\<newline>''
     @ ''#EXTINF:-1 channel-id=\"a\" tvg-id=\"a\" tvg-chno=\"\" tvg-name=\"ten point seven\" tvg-logo=\"\" group-title=\"Uncategorized\",ten point seven\<newline>''
     @ ''https://jmp2.uk/str-a.m3u8\<newline>''
     @ ''#EXTINF:-1 channel-id=\"b\" tvg-id=\"b\" tvg-chno=\"\" tvg-name=\"ten point two\" tvg-logo=\"\" group-title=\"Uncategorized\",ten point two\<newline>''
     @ ''https://jmp2.uk/str-b.m3u8\<newline>''"

text \<open>A world in which the output directory exists and holds an older playlist.\<close>

definition world_old :: world where
  "world_old =
     \<lparr>logs = [(INFO, ''Starting playlist generation process...'')],
      dirs = {''playlists''},
      files = [''playlists/stirr_all.m3u'' \<mapsto> ''old'']\<rparr>"

section \<open>Properties\<close>

subsection \<open>Strings and lines\<close>

lemma str_replace_char: "str_replace [a] [b] s = map (\<lambda>c. if c = a then b else c) s"
  by (induction s) auto

lemma str_replace_delete: "str_replace [a] [] s = filter (\<lambda>c. c \<noteq> a) s"
  by (induction s) auto

lemma split_lines_line:
  "CHR 0x0A \<notin> set b \<Longrightarrow>
     split_lines cur (b @ CHR 0x0A # rest) = (cur @ b @ [CHR 0x0A]) # split_lines [] rest"
  by (induction b arbitrary: cur) auto

lemma text_lines_single:
  "CHR 0x0A \<notin> set b \<Longrightarrow> text_lines (b @ [CHR 0x0A]) = [b @ [CHR 0x0A]]"
  using split_lines_line [of b "[]" "[]"] by (simp add: text_lines_def)

lemma str_isdigit_no_newline: "str_isdigit s \<Longrightarrow> CHR 0x0A \<notin> set s"
  by (auto simp: str_isdigit_def list_all_iff is_digit_char_def)

subsection \<open>The world and the fetcher\<close>

lemma log_files [simp]: "files (log l m w) = files w" "dirs (log l m w) = dirs w"
  by (simp_all add: log_def)

lemma logs_log [simp]: "logs (log l m w) = logs w @ [(l, m)]"
  by (simp add: log_def)

lemma path_exists_log [simp]: "path_exists (log l m w) p = path_exists w p"
  by (simp add: path_exists_def)

lemma path_exists_dir: "p \<in> dirs w \<Longrightarrow> path_exists w p"
  by (simp add: path_exists_def)

lemma decode_content_gunzip_ok:
  "gunzip env body = Inr raw \<Longrightarrow>
   decode_content env True body w =
     (case utf8_decode env raw of
        Inr text \<Rightarrow> (Inr text, log INFO ''Decompressing gzipped content.'' w)
      | Inl e \<Rightarrow>
          if e = BadGzipFile
          then (utf8_decode env raw,
                log WARNING ''Content was not gzipped, trying as plain text.''
                  (log INFO ''Decompressing gzipped content.'' w))
          else (Inl e, log ERROR ''Error decompressing gzip: ''
                         (log INFO ''Decompressing gzipped content.'' w)))"
  by (simp add: decode_content_def split: sum.split)

lemma decode_content_bad_gzip:
  "gunzip env body = Inl BadGzipFile \<Longrightarrow>
   decode_content env True body w =
     (utf8_decode env body,
      log WARNING ''Content was not gzipped, trying as plain text.''
        (log INFO ''Decompressing gzipped content.'' w))"
  by (simp add: decode_content_def)

lemma decode_content_gunzip_error:
  "gunzip env body = Inl e \<Longrightarrow> e \<noteq> BadGzipFile \<Longrightarrow>
   decode_content env True body w =
     (Inl e, log ERROR ''Error decompressing gzip: ''
               (log INFO ''Decompressing gzipped content.'' w))"
  by (simp add: decode_content_def)

lemma decode_content_plain:
  "decode_content env False body w = (utf8_decode env body, w)"
  by (simp add: decode_content_def)

lemma decode_content_world:
  "files (snd (decode_content env g body w)) = files w \<and>
   dirs (snd (decode_content env g body w)) = dirs w"
proof (cases g)
  case False
  then show ?thesis by (simp add: decode_content_plain)
next
  case True
  show ?thesis
  proof (cases "gunzip env body")
    case (Inr raw)
    with True show ?thesis
      by (simp add: decode_content_gunzip_ok split: sum.split)
  next
    case (Inl e)
    with True show ?thesis
      by (cases "e = BadGzipFile")
         (simp_all add: decode_content_bad_gzip decode_content_gunzip_error)
  qed
qed


lemma fetch_try_world:
  "files (snd (fetch_try env url j g h s w)) = files w \<and>
   dirs (snd (fetch_try env url j g h s w)) = dirs w"
proof (cases "http_get env url h s")
  case (Inl e)
  then show ?thesis by (simp add: fetch_try_def)
next
  case (Inr resp)
  obtain r w1 where d: "decode_content env g (content resp) w = (r, w1)"
    by (cases "decode_content env g (content resp) w")
  from decode_content_world [of env g "content resp" w] d
  have "files w1 = files w \<and> dirs w1 = dirs w" by simp
  with Inr d show ?thesis
    by (simp add: fetch_try_def split: sum.split option.split)
qed

lemma fetch_url_world:
  "files (snd (fetch_url env url j g h s w)) = files w \<and>
   dirs (snd (fetch_url env url j g h s w)) = dirs w"
proof -
  obtain r w1 where t: "fetch_try env url j g h s (log INFO (''Fetching URL: '' @ url) w) = (r, w1)"
    by (cases "fetch_try env url j g h s (log INFO (''Fetching URL: '' @ url) w)")
  from fetch_try_world [of env url j g h s "log INFO (''Fetching URL: '' @ url) w"] t
  have "files w1 = files w \<and> dirs w1 = dirs w" by simp
  with t show ?thesis
    by (simp add: fetch_url_def split: sum.split)
qed

lemma fetch_try_no_stream:
  "fst (fetch_try env url j g h False w) \<noteq> Inr (Stream r)"
proof (cases "http_get env url h False")
  case (Inl e)
  then show ?thesis by (simp add: fetch_try_def)
next
  case (Inr resp)
  obtain x w1 where d: "decode_content env g (content resp) w = (x, w1)"
    by (cases "decode_content env g (content resp) w")
  with Inr show ?thesis
    by (simp add: fetch_try_def split: sum.split option.split)
qed

lemma fetch_url_no_stream:
  "fst (fetch_url env url j g h False w) \<noteq> Stream r"
proof -
  obtain x w1 where t: "fetch_try env url j g h False (log INFO (''Fetching URL: '' @ url) w) = (x, w1)"
    by (cases "fetch_try env url j g h False (log INFO (''Fetching URL: '' @ url) w)")
  from fetch_try_no_stream [of env url j g h "log INFO (''Fetching URL: '' @ url) w" r] t
  have "x \<noteq> Inr (Stream r)" by simp
  with t show ?thesis
    by (cases x) (auto simp: fetch_url_def)
qed

text \<open>The log record of the handler that catches an exception in \<^verbatim>\<open>fetch_url\<close>.\<close>

lemma fetch_url_raise:
  "fetch_try env url j g h s (log INFO (''Fetching URL: '' @ url) w) = (Inl e, w1) \<Longrightarrow>
   fetch_url env url j g h s w =
     (Value JNull,
      log ERROR ((if e = RequestException then ''Error fetching ''
                  else if e = JSONDecodeError then ''Error decoding JSON from ''
                  else ''An unexpected error occurred for '') @ url @ '': '') w1)"
  by (simp add: fetch_url_def)

lemma fetch_url_return:
  "fetch_try env url j g h s (log INFO (''Fetching URL: '' @ url) w) = (Inr r, w1) \<Longrightarrow>
   fetch_url env url j g h s w = (r, w1)"
  by (simp add: fetch_url_def)

lemma fetch_try_decoded:
  "http_get env url h False = Inr resp \<Longrightarrow>
   raise_for_status resp = None \<Longrightarrow>
   decode_content env g (content resp) w = (Inr text, w1) \<Longrightarrow>
   fetch_try env url j g h False w =
     (if j then
        (case json_loads env text of
           Inl e \<Rightarrow> (Inl e, log INFO ''Parsing JSON data.'' w1)
         | Inr v \<Rightarrow> (Inr (Value v), log INFO ''Parsing JSON data.'' w1))
      else (Inr (Value (JStr text)), log INFO ''Returning raw text content.'' w1))"
  by (simp add: fetch_try_def)

lemma fetch_try_undecoded:
  "http_get env url h False = Inr resp \<Longrightarrow>
   raise_for_status resp = None \<Longrightarrow>
   decode_content env g (content resp) w = (Inl e, w1) \<Longrightarrow>
   fetch_try env url j g h False w = (Inl e, w1)"
  by (simp add: fetch_try_def)

text \<open>
  C7 (as amended). For a response body fetched with \<^verbatim>\<open>is_gzipped=True\<close>: if decompression
  fails with \<^verbatim>\<open>BadGzipFile\<close> (the body is not in gzip format), \<^verbatim>\<open>fetch_url\<close> logs a
  warning and decodes the body itself as UTF-8. When that decoding succeeds it goes on
  and returns the text, or the JSON parsed from it, or \<^verbatim>\<open>None\<close> when that parse fails;
  when the body is not UTF-8 either, it returns \<^verbatim>\<open>None\<close>. If decompression fails with any
  other exception (a truncated or corrupt gzip stream), the error is logged and
  re-raised, and \<^verbatim>\<open>fetch_url\<close> returns \<^verbatim>\<open>None\<close>.
\<close>

theorem fetch_url_gunzip_failure:
  assumes "http_get env url headers False = Inr resp"
    and "raise_for_status resp = None"
    and "gunzip env (content resp) = Inl e"
  shows "(e = BadGzipFile \<longrightarrow>
            fst (fetch_url env url is_json True headers False w) =
              (case utf8_decode env (content resp) of
                 Inl x \<Rightarrow> Value JNull
               | Inr text \<Rightarrow>
                   if is_json
                   then (case json_loads env text of Inl x \<Rightarrow> Value JNull | Inr v \<Rightarrow> Value v)
                   else Value (JStr text))
            \<and> (WARNING, ''Content was not gzipped, trying as plain text.'')
                \<in> set (logs (snd (fetch_url env url is_json True headers False w))))
       \<and> (e \<noteq> BadGzipFile \<longrightarrow>
            fst (fetch_url env url is_json True headers False w) = Value JNull
            \<and> (ERROR, ''Error decompressing gzip: '')
                \<in> set (logs (snd (fetch_url env url is_json True headers False w))))"
proof (intro conjI impI)
  let ?w0 = "log INFO (''Fetching URL: '' @ url) w"
  let ?w1 = "log WARNING ''Content was not gzipped, trying as plain text.''
               (log INFO ''Decompressing gzipped content.'' ?w0)"
  {
    assume a: "e = BadGzipFile"
    with assms have d: "decode_content env True (content resp) ?w0
        = (utf8_decode env (content resp), ?w1)"
      by (simp add: decode_content_bad_gzip)
    show "fst (fetch_url env url is_json True headers False w) =
              (case utf8_decode env (content resp) of
                 Inl x \<Rightarrow> Value JNull
               | Inr text \<Rightarrow>
                   if is_json
                   then (case json_loads env text of Inl x \<Rightarrow> Value JNull | Inr v \<Rightarrow> Value v)
                   else Value (JStr text))"
    proof (cases "utf8_decode env (content resp)")
      case (Inl x)
      with d have "decode_content env True (content resp) ?w0 = (Inl x, ?w1)" by simp
      from fetch_try_undecoded [OF assms(1) assms(2) this, of is_json] Inl show ?thesis
        by (simp add: fetch_url_raise)
    next
      case (Inr tx)
      with d have "decode_content env True (content resp) ?w0 = (Inr tx, ?w1)" by simp
      note t = fetch_try_decoded [OF assms(1) assms(2) this, of is_json]
      show ?thesis
      proof (cases is_json)
        case False
        with t Inr show ?thesis by (simp add: fetch_url_return)
      next
        case True
        with t Inr show ?thesis
          by (cases "json_loads env tx") (simp_all add: fetch_url_return fetch_url_raise)
      qed
    qed
    show "(WARNING, ''Content was not gzipped, trying as plain text.'')
                \<in> set (logs (snd (fetch_url env url is_json True headers False w)))"
    proof (cases "utf8_decode env (content resp)")
      case (Inl x)
      with d have "decode_content env True (content resp) ?w0 = (Inl x, ?w1)" by simp
      from fetch_try_undecoded [OF assms(1) assms(2) this, of is_json] show ?thesis
        by (simp add: fetch_url_raise)
    next
      case (Inr tx)
      with d have "decode_content env True (content resp) ?w0 = (Inr tx, ?w1)" by simp
      note t = fetch_try_decoded [OF assms(1) assms(2) this, of is_json]
      show ?thesis
      proof (cases is_json)
        case False
        with t show ?thesis by (simp add: fetch_url_return)
      next
        case True
        with t show ?thesis
          by (cases "json_loads env tx") (simp_all add: fetch_url_return fetch_url_raise)
      qed
    qed
  }
  {
    assume a: "e \<noteq> BadGzipFile"
    let ?w2 = "log ERROR ''Error decompressing gzip: ''
                 (log INFO ''Decompressing gzipped content.'' ?w0)"
    from a assms have d: "decode_content env True (content resp) ?w0 = (Inl e, ?w2)"
      by (simp add: decode_content_gunzip_error)
    note t = fetch_try_undecoded [OF assms(1) assms(2) d, of is_json]
    show "fst (fetch_url env url is_json True headers False w) = Value JNull"
      using t by (simp add: fetch_url_raise)
    show "(ERROR, ''Error decompressing gzip: '')
                \<in> set (logs (snd (fetch_url env url is_json True headers False w)))"
      using t by (simp add: fetch_url_raise)
  }
qed

text \<open>A body that is not gzip and decodes to \<^verbatim>\<open>hello\<close>; a body that is not gzip and not
  UTF-8 either; a body whose decompression ends with \<^verbatim>\<open>zlib.error\<close>.\<close>

theorem fetch_url_gunzip_failure_witness:
  "fst (fetch_url (fixed_env (Inl BadGzipFile) (Inr ''hello'') (Inr JNull) None WriteOk)
          ''u'' False True None False world0) = Value (JStr ''hello'')
   \<and> (WARNING, ''Content was not gzipped, trying as plain text.'')
        \<in> set (logs (snd (fetch_url (fixed_env (Inl BadGzipFile) (Inr ''hello'') (Inr JNull) None WriteOk)
                              ''u'' False True None False world0)))
   \<and> fst (fetch_url (fixed_env (Inl BadGzipFile) (Inl UnicodeDecodeError) (Inr JNull) None WriteOk)
          ''u'' False True None False world0) = Value JNull
   \<and> fst (fetch_url (fixed_env (Inl ZlibError) (Inr ''hello'') (Inr JNull) None WriteOk)
          ''u'' False True None False world0) = Value JNull
   \<and> (ERROR, ''Error decompressing gzip: '')
        \<in> set (logs (snd (fetch_url (fixed_env (Inl ZlibError) (Inr ''hello'') (Inr JNull) None WriteOk)
                              ''u'' False True None False world0)))"
proof -
  from fetch_url_gunzip_failure
    [of "fixed_env (Inl BadGzipFile) (Inr ''hello'') (Inr JNull) None WriteOk" "''u''" None
        "\<lparr>status_code = 200, content = [0x1f, 0x8b]\<rparr>" BadGzipFile False world0]
  have a: "fst (fetch_url (fixed_env (Inl BadGzipFile) (Inr ''hello'') (Inr JNull) None WriteOk)
          ''u'' False True None False world0) = Value (JStr ''hello'')
   \<and> (WARNING, ''Content was not gzipped, trying as plain text.'')
        \<in> set (logs (snd (fetch_url (fixed_env (Inl BadGzipFile) (Inr ''hello'') (Inr JNull) None WriteOk)
                              ''u'' False True None False world0)))"
    by (simp add: fixed_env_def raise_for_status_def)
  from fetch_url_gunzip_failure
    [of "fixed_env (Inl BadGzipFile) (Inl UnicodeDecodeError) (Inr JNull) None WriteOk" "''u''" None
        "\<lparr>status_code = 200, content = [0x1f, 0x8b]\<rparr>" BadGzipFile False world0]
  have b: "fst (fetch_url (fixed_env (Inl BadGzipFile) (Inl UnicodeDecodeError) (Inr JNull) None WriteOk)
          ''u'' False True None False world0) = Value JNull"
    by (simp add: fixed_env_def raise_for_status_def)
  from fetch_url_gunzip_failure
    [of "fixed_env (Inl ZlibError) (Inr ''hello'') (Inr JNull) None WriteOk" "''u''" None
        "\<lparr>status_code = 200, content = [0x1f, 0x8b]\<rparr>" ZlibError False world0]
  have c: "fst (fetch_url (fixed_env (Inl ZlibError) (Inr ''hello'') (Inr JNull) None WriteOk)
          ''u'' False True None False world0) = Value JNull
   \<and> (ERROR, ''Error decompressing gzip: '')
        \<in> set (logs (snd (fetch_url (fixed_env (Inl ZlibError) (Inr ''hello'') (Inr JNull) None WriteOk)
                              ''u'' False True None False world0)))"
    by (simp add: fixed_env_def raise_for_status_def)
  from a b c show ?thesis by simp
qed

text \<open>A body whose decompression ends with \<^verbatim>\<open>EOFError\<close> (a gzip stream cut short), although
  the bytes would decode as text: the fetch as a whole fails.\<close>

theorem fetch_url_gunzip_counterexample:
  "fetch_url (fixed_env (Inl EOFError) (Inr ''hello'') (Inr JNull) None WriteOk)
       ''u'' False True None False world0
     = (Value JNull,
        \<lparr>logs = [(INFO, ''Fetching URL: u''),
                 (INFO, ''Decompressing gzipped content.''),
                 (ERROR, ''Error decompressing gzip: ''),
                 (ERROR, ''An unexpected error occurred for u: '')],
         dirs = {}, files = Map.empty\<rparr>)"
  by (simp add: fetch_url_def fetch_try_def decode_content_def fixed_env_def
      raise_for_status_def log_def world0_def)

subsection \<open>The generator: before the playlist is built\<close>

lemma fetch_url_json_ok:
  assumes "http_get env url h False = Inr resp"
    and "raise_for_status resp = None"
    and "gunzip env (content resp) = Inr raw"
    and "utf8_decode env raw = Inr text"
    and "json_loads env text = Inr v"
  shows "fetch_url env url True True h False w =
           (Value v,
            log INFO ''Parsing JSON data.''
              (log INFO ''Decompressing gzipped content.''
                (log INFO (''Fetching URL: '' @ url) w)))"
proof -
  let ?w0 = "log INFO (''Fetching URL: '' @ url) w"
  from assms have d: "decode_content env True (content resp) ?w0
      = (Inr text, log INFO ''Decompressing gzipped content.'' ?w0)"
    by (simp add: decode_content_gunzip_ok)
  from fetch_try_decoded [OF assms(1) assms(2) d, of True] assms(5)
  show ?thesis by (simp add: fetch_url_return)
qed

lemma generate_after_fetch:
  "fetch_url env STIRR_URL True True None False
       (log INFO ''--- Generating Stirr playlist ---'' w) = (Value data, w1) \<Longrightarrow>
   generate_stirr_m3u env sort_arg w =
     (case no_channels data of
        Inl e \<Rightarrow> (Some e, w1)
      | Inr True \<Rightarrow> (None, log ERROR ''Failed to fetch or parse Stirr data.'' w1)
      | Inr False \<Rightarrow>
          (let (failed, r) = stirr_playlist data sort_arg;
               w2 = (if failed
                     then log WARNING ''Sorting failed for Stirr, using default order. Error: '' w1
                     else w1)
           in case r of
                Inl e \<Rightarrow> (Some e, w2)
              | Inr text \<Rightarrow> write_m3u_file env ''stirr_all.m3u'' text w2))"
  by (simp add: generate_stirr_m3u_def)

lemma generate_no_data:
  "fetch_url env STIRR_URL True True None False
       (log INFO ''--- Generating Stirr playlist ---'' w) = (Value data, w1) \<Longrightarrow>
   no_channels data = Inr True \<Longrightarrow>
   generate_stirr_m3u env sort_arg w =
     (None, log ERROR ''Failed to fetch or parse Stirr data.'' w1)"
  by (simp add: generate_after_fetch)

lemma generate_test_raises:
  "fetch_url env STIRR_URL True True None False
       (log INFO ''--- Generating Stirr playlist ---'' w) = (Value data, w1) \<Longrightarrow>
   no_channels data = Inl e \<Longrightarrow>
   generate_stirr_m3u env sort_arg w = (Some e, w1)"
  by (simp add: generate_after_fetch)

lemma generate_playlist:
  "fetch_url env STIRR_URL True True None False
       (log INFO ''--- Generating Stirr playlist ---'' w) = (Value data, w1) \<Longrightarrow>
   no_channels data = Inr False \<Longrightarrow>
   stirr_playlist data sort_arg = (failed, r) \<Longrightarrow>
   generate_stirr_m3u env sort_arg w =
     (case r of
        Inl e \<Rightarrow>
          (Some e, if failed
                   then log WARNING ''Sorting failed for Stirr, using default order. Error: '' w1
                   else w1)
      | Inr text \<Rightarrow>
          write_m3u_file env ''stirr_all.m3u'' text
            (if failed
             then log WARNING ''Sorting failed for Stirr, using default order. Error: '' w1
             else w1))"
  by (cases failed) (simp_all add: generate_after_fetch Let_def)

lemma no_channels_falsy: "\<not> py_truthy data \<Longrightarrow> no_channels data = Inr True"
  by (simp add: no_channels_def)

lemma no_channels_lacking:
  "''channels'' \<notin> fst ` set kvs \<Longrightarrow> no_channels (JObj kvs) = Inr True"
  "JStr ''channels'' \<notin> set xs \<Longrightarrow> no_channels (JArr xs) = Inr True"
  "\<not> is_substring ''channels'' s \<Longrightarrow> no_channels (JStr s) = Inr True"
  by (simp_all add: no_channels_def bind_exn_def)

lemma no_channels_scalar:
  "b \<Longrightarrow> no_channels (JBool b) = Inl TypeError"
  "n \<noteq> 0 \<Longrightarrow> no_channels (JInt n) = Inl TypeError"
  "float_truthy f \<Longrightarrow> no_channels (JFloat f) = Inl TypeError"
  by (simp_all add: no_channels_def bind_exn_def)

lemma fetch_url_world_eq:
  "fetch_url env url j g h s w = (r, w1) \<Longrightarrow> files w1 = files w \<and> dirs w1 = dirs w"
  using fetch_url_world [of env url j g h s w] by simp

text \<open>
  C6 (as amended). When the fetcher returns no data (\<^verbatim>\<open>None\<close>, after any failure) or any
  other falsy value, or returns a JSON object without the key \<^verbatim>\<open>channels\<close> (or an array
  without the element, or a string without the substring), \<^verbatim>\<open>generate_stirr_m3u\<close> logs
  an error and returns without raising; no file is written and no directory made. When
  the fetcher returns a number other than zero or \<^verbatim>\<open>true\<close>, the test
  \<^verbatim>\<open>'channels' not in data\<close> raises \<^verbatim>\<open>TypeError\<close>, which leaves the function; no file is
  written then either.
\<close>

theorem generate_without_channels:
  assumes "fetch_url env STIRR_URL True True None False
             (log INFO ''--- Generating Stirr playlist ---'' w) = (Value data, w1)"
  shows "(\<not> py_truthy data
            \<or> (\<exists>kvs. data = JObj kvs \<and> ''channels'' \<notin> fst ` set kvs)
            \<or> (\<exists>xs. data = JArr xs \<and> JStr ''channels'' \<notin> set xs)
            \<or> (\<exists>s. data = JStr s \<and> \<not> is_substring ''channels'' s)
          \<longrightarrow> generate_stirr_m3u env sort_arg w
                = (None, log ERROR ''Failed to fetch or parse Stirr data.'' w1)
              \<and> files (snd (generate_stirr_m3u env sort_arg w)) = files w
              \<and> dirs (snd (generate_stirr_m3u env sort_arg w)) = dirs w)
       \<and> (py_truthy data
            \<and> ((\<exists>b. data = JBool b) \<or> (\<exists>n. data = JInt n) \<or> (\<exists>f. data = JFloat f))
          \<longrightarrow> generate_stirr_m3u env sort_arg w = (Some TypeError, w1)
              \<and> files (snd (generate_stirr_m3u env sort_arg w)) = files w
              \<and> dirs (snd (generate_stirr_m3u env sort_arg w)) = dirs w)"
proof -
  from fetch_url_world_eq [OF assms]
  have fs: "files w1 = files w" "dirs w1 = dirs w" by simp_all
  have a: "generate_stirr_m3u env sort_arg w
             = (None, log ERROR ''Failed to fetch or parse Stirr data.'' w1)"
    if "no_channels data = Inr True"
    using generate_no_data [OF assms that] .
  have b: "generate_stirr_m3u env sort_arg w = (Some TypeError, w1)"
    if "no_channels data = Inl TypeError"
    using generate_test_raises [OF assms that] .
  show ?thesis
  proof (intro conjI impI)
    assume h: "\<not> py_truthy data
            \<or> (\<exists>kvs. data = JObj kvs \<and> ''channels'' \<notin> fst ` set kvs)
            \<or> (\<exists>xs. data = JArr xs \<and> JStr ''channels'' \<notin> set xs)
            \<or> (\<exists>s. data = JStr s \<and> \<not> is_substring ''channels'' s)"
    then have n: "no_channels data = Inr True"
      by (elim disjE exE conjE) (simp_all add: no_channels_falsy no_channels_lacking)
    from a [OF n] show "generate_stirr_m3u env sort_arg w
                = (None, log ERROR ''Failed to fetch or parse Stirr data.'' w1)" .
    from a [OF n] fs show "files (snd (generate_stirr_m3u env sort_arg w)) = files w" by simp
    from a [OF n] fs show "dirs (snd (generate_stirr_m3u env sort_arg w)) = dirs w" by simp
  next
    assume h: "py_truthy data
            \<and> ((\<exists>b. data = JBool b) \<or> (\<exists>n. data = JInt n) \<or> (\<exists>f. data = JFloat f))"
    then have n: "no_channels data = Inl TypeError"
      by (elim disjE exE conjE) (simp_all add: no_channels_scalar)
    from b [OF n] show "generate_stirr_m3u env sort_arg w = (Some TypeError, w1)" .
    from b [OF n] fs show "files (snd (generate_stirr_m3u env sort_arg w)) = files w" by simp
    from b [OF n] fs show "dirs (snd (generate_stirr_m3u env sort_arg w)) = dirs w" by simp
  qed
qed

lemma fixed_env_fetch:
  "fetch_url (fixed_env (Inr raw) (Inr text) (Inr v) mk wr) url True True None False w =
     (Value v,
      log INFO ''Parsing JSON data.''
        (log INFO ''Decompressing gzipped content.''
          (log INFO (''Fetching URL: '' @ url) w)))"
  by (rule fetch_url_json_ok [where resp = "\<lparr>status_code = 200, content = [0x1f, 0x8b]\<rparr>"])
     (simp_all add: fixed_env_def raise_for_status_def)

theorem generate_without_channels_witness:
  "generate_stirr_m3u (fixed_env (Inr []) (Inr ''{\"a\": 1}'') (Inr (JObj [(''a'', JInt 1)])) None WriteOk)
      ''name'' world0
     = (None,
        log ERROR ''Failed to fetch or parse Stirr data.''
          (log INFO ''Parsing JSON data.''
            (log INFO ''Decompressing gzipped content.''
              (log INFO (''Fetching URL: '' @ STIRR_URL)
                (log INFO ''--- Generating Stirr playlist ---'' world0)))))
   \<and> generate_stirr_m3u (fixed_env (Inr []) (Inr ''true'') (Inr (JBool True)) None WriteOk)
      ''name'' world0
     = (Some TypeError,
        log INFO ''Parsing JSON data.''
            (log INFO ''Decompressing gzipped content.''
              (log INFO (''Fetching URL: '' @ STIRR_URL)
                (log INFO ''--- Generating Stirr playlist ---'' world0))))"
proof
  note f = fixed_env_fetch [of "[]" "''{\"a\": 1}''" "JObj [(''a'', JInt 1)]" None WriteOk STIRR_URL
      "log INFO ''--- Generating Stirr playlist ---'' world0"]
  from generate_without_channels [OF f, of "''name''"]
  show "generate_stirr_m3u (fixed_env (Inr []) (Inr ''{\"a\": 1}'') (Inr (JObj [(''a'', JInt 1)])) None WriteOk)
      ''name'' world0
     = (None,
        log ERROR ''Failed to fetch or parse Stirr data.''
          (log INFO ''Parsing JSON data.''
            (log INFO ''Decompressing gzipped content.''
              (log INFO (''Fetching URL: '' @ STIRR_URL)
                (log INFO ''--- Generating Stirr playlist ---'' world0)))))"
    by simp
next
  note f = fixed_env_fetch [of "[]" "''true''" "JBool True" None WriteOk STIRR_URL
      "log INFO ''--- Generating Stirr playlist ---'' world0"]
  from generate_without_channels [OF f, of "''name''"]
  show "generate_stirr_m3u (fixed_env (Inr []) (Inr ''true'') (Inr (JBool True)) None WriteOk)
      ''name'' world0
     = (Some TypeError,
        log INFO ''Parsing JSON data.''
            (log INFO ''Decompressing gzipped content.''
              (log INFO (''Fetching URL: '' @ STIRR_URL)
                (log INFO ''--- Generating Stirr playlist ---'' world0))))"
    by auto
qed

text \<open>The catalog is the number 5: the test of line 105 raises.\<close>

theorem generate_without_channels_counterexample:
  "generate_stirr_m3u (fixed_env (Inr []) (Inr ''5'') (Inr (JInt 5)) None WriteOk) ''name'' world0
     = (Some TypeError,
        log INFO ''Parsing JSON data.''
            (log INFO ''Decompressing gzipped content.''
              (log INFO (''Fetching URL: '' @ STIRR_URL)
                (log INFO ''--- Generating Stirr playlist ---'' world0))))"
proof -
  note f = fixed_env_fetch [of "[]" "''5''" "JInt 5" None WriteOk STIRR_URL
      "log INFO ''--- Generating Stirr playlist ---'' world0"]
  have n: "no_channels (JInt 5) = Inl TypeError"
    by (simp add: no_channels_def bind_exn_def)
  from generate_test_raises [OF f n] show ?thesis .
qed

text \<open>
  C10. When the body is decompressed, decoded and parsed with success but the parsed value
  is falsy (\<^verbatim>\<open>{}\<close>, \<^verbatim>\<open>[]\<close>, \<^verbatim>\<open>null\<close>, \<^verbatim>\<open>0\<close>, \<^verbatim>\<open>false\<close>, \<^verbatim>\<open>""\<close>), \<^verbatim>\<open>generate_stirr_m3u\<close>
  logs the error of a failed fetch and returns; the world changes by log records only, so
  no file is written. The test of line 105 gives the same answer for the value as for
  \<^verbatim>\<open>None\<close>, the result of a failed fetch.
\<close>

theorem generate_falsy_catalog:
  assumes "http_get env STIRR_URL None False = Inr resp"
    and "raise_for_status resp = None"
    and "gunzip env (content resp) = Inr raw"
    and "utf8_decode env raw = Inr text"
    and "json_loads env text = Inr v"
    and "\<not> py_truthy v"
  shows "generate_stirr_m3u env sort_arg w =
           (None,
            log ERROR ''Failed to fetch or parse Stirr data.''
              (log INFO ''Parsing JSON data.''
                (log INFO ''Decompressing gzipped content.''
                  (log INFO (''Fetching URL: '' @ STIRR_URL)
                    (log INFO ''--- Generating Stirr playlist ---'' w)))))
       \<and> no_channels v = no_channels JNull"
proof -
  note f = fetch_url_json_ok [OF assms(1-5), of "log INFO ''--- Generating Stirr playlist ---'' w"]
  from assms(6) have n: "no_channels v = Inr True"
    by (rule no_channels_falsy)
  have m: "no_channels JNull = Inr True"
    by (simp add: no_channels_falsy)
  from generate_no_data [OF f n, of sort_arg] n m show ?thesis
    by simp
qed

theorem generate_falsy_catalog_witness:
  "generate_stirr_m3u (fixed_env (Inr []) (Inr ''{}'') (Inr (JObj [])) None WriteOk) ''name'' world0 =
           (None,
            log ERROR ''Failed to fetch or parse Stirr data.''
              (log INFO ''Parsing JSON data.''
                (log INFO ''Decompressing gzipped content.''
                  (log INFO (''Fetching URL: '' @ STIRR_URL)
                    (log INFO ''--- Generating Stirr playlist ---'' world0)))))
       \<and> no_channels (JObj []) = no_channels JNull"
  by (rule generate_falsy_catalog [of _ "\<lparr>status_code = 200, content = [0x1f, 0x8b]\<rparr>" "[]" "''{}''"])
     (simp_all add: fixed_env_def raise_for_status_def)

subsection \<open>The order of the channels\<close>

lemma eval_keys_total:
  "\<forall>x\<in>set xs. f x = Inr (g x) \<Longrightarrow> eval_keys f xs = Inr (map g xs)"
  by (induction xs) simp_all

lemma zip_keys_fst: "p \<in> set (zip (map g xs) xs) \<Longrightarrow> fst p = g (snd p)"
  by (induction xs) auto

lemma insort_key_decorated:
  "\<forall>p\<in>set ps. fst p = g (snd p) \<Longrightarrow>
   map snd (insort_key fst (g x, x) ps) = insort_key g x (map snd ps)"
  by (induction ps) simp_all

lemma sort_key_decorated:
  "map snd (sort_key fst (zip (map g xs) xs)) = sort_key g xs"
proof (induction xs)
  case Nil
  show ?case by simp
next
  case (Cons x xs)
  have "\<forall>p\<in>set (sort_key fst (zip (map g xs) xs)). fst p = g (snd p)"
    by (simp add: zip_keys_fst)
  from insort_key_decorated [OF this, of x] Cons show ?case
    by simp
qed

lemma py_sorted_total:
  "\<forall>x\<in>set xs. f x = Inr (g x) \<Longrightarrow> py_sorted f xs = Inr (sort_key g xs)"
  using eval_keys_total [of xs f g] by (simp add: py_sorted_def sort_key_decorated)

lemma sorted_position:
  fixes g :: "'a \<Rightarrow> 'k::linorder"
  assumes "sorted (map g ys)" and "i < length ys" and "j < length ys"
    and "g (ys ! j) < g (ys ! i)"
  shows "j < i"
proof (rule ccontr)
  assume "\<not> j < i"
  then have "i \<le> j" by simp
  with assms(1,3) have "map g ys ! i \<le> map g ys ! j"
    by (simp add: sorted_iff_nth_mono)
  with assms(2,3,4) show False by simp
qed

lemma chno_key_eq:
  assumes "map_of kvs k = Some (JObj f)"
    and "\<forall>v. map_of f ''chno'' = Some v \<longrightarrow> (\<exists>n. py_int v = Inr n)"
  shows "chno_key (JObj kvs) k = Inr (chno_number kvs k)"
proof (cases "map_of f ''chno''")
  case None
  with assms(1) show ?thesis
    by (simp add: chno_key_def bind_exn_def chno_number_def channel_field_def dict_get_def)
next
  case (Some v)
  with assms(2) obtain n where "py_int v = Inr n" by auto
  with Some assms(1) show ?thesis
    by (simp add: chno_key_def bind_exn_def chno_number_def channel_field_def dict_get_def)
qed

lemma name_key_eq:
  assumes "map_of kvs k = Some (JObj f)"
    and "\<forall>v. map_of f ''name'' = Some v \<longrightarrow> is_str v"
  shows "name_key (JObj kvs) k = Inr (lower_name kvs k)"
proof (cases "map_of f ''name''")
  case None
  with assms(1) show ?thesis
    by (simp add: name_key_def bind_exn_def lower_name_def channel_field_def str_lower_def dict_get_def)
next
  case (Some v)
  with assms(2) have "is_str v" by simp
  then obtain n where "v = JStr n" by (cases v) simp_all
  with Some assms(1) show ?thesis
    by (simp add: name_key_def bind_exn_def lower_name_def channel_field_def dict_get_def)
qed

text \<open>The order under the key \<^verbatim>\<open>chno\<close>, when every channel record is an object and every
  channel number converts to an integer: the stable sort of the insertion order by that
  integer, 99999 for a channel without a number.\<close>

lemma chno_order:
  assumes "\<forall>k\<in>set (map fst kvs).
             (\<exists>f. map_of kvs k = Some (JObj f)) \<and>
             (\<forall>v. channel_field kvs k ''chno'' = Some v \<longrightarrow> (\<exists>n. py_int v = Inr n))"
  shows "\<exists>ids. sorted_channel_ids (JObj kvs) ''chno'' = Inr ids
           \<and> channel_order (JObj kvs) ''chno'' = (False, Inr ids)
           \<and> ids = sort_key (chno_number kvs) (map fst kvs)
           \<and> mset ids = mset (map fst kvs)
           \<and> sorted (map (chno_number kvs) ids)
           \<and> (\<forall>i<length ids. \<forall>j<length ids.
                 channel_field kvs (ids ! i) ''chno'' = None \<and> chno_number kvs (ids ! j) < 99999
                 \<longrightarrow> j < i)"
proof -
  let ?ids = "sort_key (chno_number kvs) (map fst kvs)"
  have keys: "\<forall>k\<in>set (map fst kvs). chno_key (JObj kvs) k = Inr (chno_number kvs k)"
  proof
    fix k assume k: "k \<in> set (map fst kvs)"
    note h = bspec [OF assms k]
    from h obtain f where f: "map_of kvs k = Some (JObj f)" by (elim conjE exE)
    then have "channel_field kvs k ''chno'' = map_of f ''chno''"
      by (simp add: channel_field_def)
    with h have "\<forall>v. map_of f ''chno'' = Some v \<longrightarrow> (\<exists>n. py_int v = Inr n)"
      by simp
    with f show "chno_key (JObj kvs) k = Inr (chno_number kvs k)"
      by (rule chno_key_eq)
  qed
  have s: "sorted_channel_ids (JObj kvs) ''chno'' = Inr ?ids"
    using py_sorted_total [of "map fst kvs" "chno_key (JObj kvs)" "chno_number kvs"] keys
    by (simp add: sorted_channel_ids_def bind_exn_def)
  then have o: "channel_order (JObj kvs) ''chno'' = (False, Inr ?ids)"
    by (simp add: channel_order_def)
  have srt: "sorted (map (chno_number kvs) ?ids)"
    by (rule sorted_sort_key)
  have pos: "j < i"
    if "i < length ?ids" "j < length ?ids"
      "channel_field kvs (?ids ! i) ''chno'' = None \<and> chno_number kvs (?ids ! j) < 99999"
    for i j
  proof -
    from that(3) have "chno_number kvs (?ids ! i) = 99999"
      by (simp add: chno_number_def)
    with that(3) have "chno_number kvs (?ids ! j) < chno_number kvs (?ids ! i)" by simp
    from sorted_position [OF srt that(1) that(2) this] show ?thesis .
  qed
  from s o srt pos show ?thesis by simp
qed

text \<open>The order under every other key, when every channel record is an object and every
  name is a string: the stable sort of the insertion order by the lower-case name, the
  empty string for a channel without a name.\<close>

lemma name_order:
  assumes "\<forall>k\<in>set (map fst kvs).
             (\<exists>f. map_of kvs k = Some (JObj f)) \<and>
             (\<forall>v. channel_field kvs k ''name'' = Some v \<longrightarrow> is_str v)"
    and "sort_arg \<noteq> ''chno''"
  shows "\<exists>ids. sorted_channel_ids (JObj kvs) sort_arg = Inr ids
           \<and> channel_order (JObj kvs) sort_arg = (False, Inr ids)
           \<and> ids = sort_key (lower_name kvs) (map fst kvs)
           \<and> mset ids = mset (map fst kvs)
           \<and> sorted (map (lower_name kvs) ids)
           \<and> (\<forall>i<length ids. \<forall>j<length ids.
                 channel_field kvs (ids ! i) ''name'' = None
                 \<and> (\<exists>n. channel_field kvs (ids ! j) ''name'' = Some (JStr n) \<and> n \<noteq> [])
                 \<longrightarrow> i < j)"
proof -
  let ?ids = "sort_key (lower_name kvs) (map fst kvs)"
  have keys: "\<forall>k\<in>set (map fst kvs). name_key (JObj kvs) k = Inr (lower_name kvs k)"
  proof
    fix k assume k: "k \<in> set (map fst kvs)"
    note h = bspec [OF assms(1) k]
    from h obtain f where f: "map_of kvs k = Some (JObj f)" by (elim conjE exE)
    then have "channel_field kvs k ''name'' = map_of f ''name''"
      by (simp add: channel_field_def)
    with h have "\<forall>v. map_of f ''name'' = Some v \<longrightarrow> is_str v"
      by simp
    with f show "name_key (JObj kvs) k = Inr (lower_name kvs k)"
      by (rule name_key_eq)
  qed
  have s: "sorted_channel_ids (JObj kvs) sort_arg = Inr ?ids"
    using py_sorted_total [of "map fst kvs" "name_key (JObj kvs)" "lower_name kvs"] keys assms(2)
    by (simp add: sorted_channel_ids_def bind_exn_def)
  then have o: "channel_order (JObj kvs) sort_arg = (False, Inr ?ids)"
    by (simp add: channel_order_def)
  have srt: "sorted (map (lower_name kvs) ?ids)"
    by (rule sorted_sort_key)
  have pos: "i < j"
    if "i < length ?ids" "j < length ?ids"
      "channel_field kvs (?ids ! i) ''name'' = None
        \<and> (\<exists>n. channel_field kvs (?ids ! j) ''name'' = Some (JStr n) \<and> n \<noteq> [])"
    for i j
  proof -
    from that(3) have a: "lower_name kvs (?ids ! i) = []"
      by (simp add: lower_name_def)
    from that(3) obtain n where "channel_field kvs (?ids ! j) ''name'' = Some (JStr n)" "n \<noteq> []"
      by (elim conjE exE)
    then have "lower_name kvs (?ids ! j) \<noteq> []"
      by (simp add: lower_name_def str_lower_def)
    with a have "lower_name kvs (?ids ! i) < lower_name kvs (?ids ! j)"
      by (cases "lower_name kvs (?ids ! j)") simp_all
    from sorted_position [OF srt that(2) that(1) this] show ?thesis .
  qed
  from s o srt pos show ?thesis by simp
qed

subsection \<open>Parts of a channel entry\<close>

lemma stream_url_eq: "stream_url k = ''https://jmp2.uk/str-'' @ k @ ''.m3u8''"
  by (simp add: stream_url_def STREAM_URL_TEMPLATE_def)

lemma the_strs_all: "list_all is_str xs \<Longrightarrow> \<exists>ss. the_strs xs = Some ss"
proof (induction xs)
  case Nil
  show ?case by simp
next
  case (Cons x xs)
  then obtain ss where "the_strs xs = Some ss" by auto
  moreover from Cons.prems obtain s where "x = JStr s" by (cases x) simp_all
  ultimately show ?case by simp
qed

lemma group_title_ok:
  "(case g of JArr xs \<Rightarrow> list_all is_str xs | _ \<Rightarrow> False) \<Longrightarrow> \<exists>t. group_title_of g = Inr t"
proof (cases g)
  case (JArr xs)
  assume "case g of JArr xs \<Rightarrow> list_all is_str xs | _ \<Rightarrow> False"
  with JArr have "list_all is_str xs" by simp
  then obtain ss where "the_strs xs = Some ss" using the_strs_all by blast
  with JArr show ?thesis by (simp add: group_title_of_def)
qed simp_all

lemma format_extinf_str:
  "format_extinf cid tid chno (JStr name) logo (JStr grp) (JStr disp)
     = Inr (''#EXTINF:-1 channel-id=\"'' @ py_str cid
              @ ''\" tvg-id=\"'' @ py_str tid
              @ ''\" tvg-chno=\"''
              @ (if chno \<noteq> JNull \<and> str_isdigit (py_str chno) then py_str chno else [])
              @ ''\" tvg-name=\"'' @ map (\<lambda>c. if c = CHR 0x22 then CHR 0x27 else c) name
              @ ''\" tvg-logo=\"'' @ py_str logo
              @ ''\" group-title=\"'' @ map (\<lambda>c. if c = CHR 0x22 then CHR 0x27 else c) grp
              @ ''\",'' @ filter (\<lambda>c. c \<noteq> CHR '','') disp @ [CHR 0x0A])"
  by (simp add: format_extinf_def str_replace_char str_replace_delete)

lemma format_extinf_not_str:
  "\<not> is_str name \<Longrightarrow> format_extinf cid tid chno name logo grp disp = Inl AttributeError"
  by (cases name) (simp_all add: format_extinf_def)

text \<open>The two lines of a channel whose record is the object \<open>f\<close>.\<close>

lemma channel_lines_obj:
  "map_of kvs k = Some (JObj f) \<Longrightarrow>
   channel_lines (JObj kvs) k =
     bind_exn (group_title_of (dict_get f ''groups'' (JArr []))) (\<lambda>group_title.
     bind_exn (format_extinf (JStr k) (JStr k) (dict_get f ''chno'' JNull)
                 (dict_get f ''name'' (JStr ''Unknown Channel'')) (dict_get f ''logo'' (JStr []))
                 (JStr group_title) (dict_get f ''name'' (JStr ''Unknown Channel''))) (\<lambda>extinf.
     Inr [extinf, stream_url k @ [CHR 0x0A]]))"
  by (simp add: channel_lines_def bind_exn_def)

lemma channel_lines_not_obj:
  "map_of kvs k = Some ch \<Longrightarrow> \<not> is_obj ch \<Longrightarrow> channel_lines (JObj kvs) k = Inl AttributeError"
  by (cases ch) (simp_all add: channel_lines_def bind_exn_def)

subsection \<open>Texts without a line feed\<close>

lemma char_of_newline: "(char_of (n::nat) = CHR 0x0A) = (n mod 256 = 10)"
  by (simp add: char_of_eq_iff take_bit_eq_mod)

lemma digit_char_newline:
  "d < 10 \<Longrightarrow> digit_char d \<noteq> CHR 0x0A"
  "d < 10 \<Longrightarrow> CHR 0x0A \<noteq> digit_char d"
  using char_of_newline [of "48 + d"] by (auto simp: digit_char_def)

lemma dec_digits_newline: "CHR 0x0A \<notin> set (dec_digits n)"
proof (induction n rule: dec_digits.induct)
  case (1 n)
  show ?case
  proof (cases "n < 10")
    case True
    then show ?thesis by (subst dec_digits.simps) (simp add: digit_char_newline)
  next
    case False
    with 1 have "CHR 0x0A \<notin> set (dec_digits (n div 10))" by simp
    moreover have "digit_char (n mod 10) \<noteq> CHR 0x0A" by (simp add: digit_char_newline)
    ultimately show ?thesis using False
      by (subst dec_digits.simps) auto
  qed
qed

lemma str_of_int_newline: "CHR 0x0A \<notin> set (str_of_int i)"
  by (simp add: str_of_int_def dec_digits_newline)

lemma hex_digit_newline:
  "d < 16 \<Longrightarrow> hex_digit d \<noteq> CHR 0x0A"
  "d < 16 \<Longrightarrow> CHR 0x0A \<noteq> hex_digit d"
  using char_of_newline [of "48 + d"] char_of_newline [of "87 + d"]
  by (auto simp: hex_digit_def)

lemma repr_char_newline: "q \<noteq> CHR 0x0A \<Longrightarrow> CHR 0x0A \<notin> set (repr_char q c)"
proof -
  assume q: "q \<noteq> CHR 0x0A"
  have p: "c \<noteq> CHR 0x0A" if "is_printable c"
    using that by (auto simp: is_printable_def)
  have "(of_char c :: nat) mod 256 < 256"
    by (rule mod_less_divisor) simp
  then have "(of_char c :: nat) < 256"
    by (simp only: of_char_mod_256)
  then have h: "CHR 0x0A \<noteq> hex_digit (of_char c div 16)" "CHR 0x0A \<noteq> hex_digit (of_char c mod 16)"
    by (simp_all add: hex_digit_newline less_mult_imp_div_less)
  from q p h show ?thesis
    by (auto simp: repr_char_def)
qed

lemma repr_str_newline: "CHR 0x0A \<notin> set (repr_str s)"
  by (simp add: repr_str_def Let_def repr_char_newline)

lemma join_str_newline:
  "CHR 0x0A \<notin> set sep \<Longrightarrow> \<forall>s\<in>set ss. CHR 0x0A \<notin> set s \<Longrightarrow> CHR 0x0A \<notin> set (join_str sep ss)"
  by (induction sep ss rule: join_str.induct) simp_all

lemma py_repr_newline: "\<not> has_newline v \<Longrightarrow> CHR 0x0A \<notin> set (py_repr v)"
proof (induction v rule: py_repr.induct)
  case (6 xs)
  then have "\<forall>s\<in>set (map py_repr xs). CHR 0x0A \<notin> set s"
    by (auto simp: list_ex_iff)
  then have "CHR 0x0A \<notin> set (join_str '', '' (map py_repr xs))"
    by (intro join_str_newline) simp_all
  then show ?case by simp
next
  case (7 kvs)
  then have "\<forall>s\<in>set (map (\<lambda>kv. repr_str (fst kv) @ '': '' @ py_repr (snd kv)) kvs). CHR 0x0A \<notin> set s"
    by (auto simp: list_ex_iff repr_str_newline)
  then have "CHR 0x0A \<notin> set (join_str '', '' (map (\<lambda>kv. repr_str (fst kv) @ '': '' @ py_repr (snd kv)) kvs))"
    by (intro join_str_newline) simp_all
  then show ?case by simp
qed (simp_all add: str_of_int_newline repr_str_newline)

lemma py_str_newline: "\<not> has_newline v \<Longrightarrow> CHR 0x0A \<notin> set (py_str v)"
  by (cases v) (simp_all add: py_repr_newline del: py_repr.simps)

subsection \<open>The lines of one channel\<close>

lemma format_extinf_body:
  "format_extinf cid tid chno (JStr name) logo (JStr grp) (JStr disp)
     = Inr (extinf_body (py_str cid) (py_str tid)
              (if chno \<noteq> JNull \<and> str_isdigit (py_str chno) then py_str chno else [])
              (map (\<lambda>c. if c = CHR 0x22 then CHR 0x27 else c) name)
              (py_str logo)
              (map (\<lambda>c. if c = CHR 0x22 then CHR 0x27 else c) grp)
              (filter (\<lambda>c. c \<noteq> CHR '','') disp) @ [CHR 0x0A])"
  by (simp add: format_extinf_str extinf_body_def)

lemma extinf_body_newline:
  "CHR 0x0A \<notin> set cid \<union> set tid \<union> set chno \<union> set name \<union> set logo \<union> set grp \<union> set disp \<Longrightarrow>
   CHR 0x0A \<notin> set (extinf_body cid tid chno name logo grp disp)"
  by (simp add: extinf_body_def)

lemma one_line_body: "CHR 0x0A \<notin> set b \<Longrightarrow> one_line (b @ [CHR 0x0A])"
  by (simp add: one_line_def)

lemma one_line_split: "one_line l \<Longrightarrow> \<exists>b. l = b @ [CHR 0x0A] \<and> CHR 0x0A \<notin> set b"
proof -
  assume "one_line l"
  then have "l = butlast l @ [CHR 0x0A] \<and> CHR 0x0A \<notin> set (butlast l)"
    by (simp add: one_line_def) (metis append_butlast_last_id)
  then show ?thesis ..
qed

lemma text_lines_concat: "list_all one_line ls \<Longrightarrow> text_lines (concat ls) = ls"
proof -
  have "list_all one_line ls \<Longrightarrow> split_lines [] (concat ls) = ls"
  proof (induction ls)
    case Nil
    show ?case by simp
  next
    case (Cons l ls)
    then obtain b where b: "l = b @ [CHR 0x0A]" "CHR 0x0A \<notin> set b"
      using one_line_split [of l] by auto
    from Cons have "split_lines [] (concat ls) = ls" by simp
    with b split_lines_line [of b "[]" "concat ls"] show ?case by simp
  qed
  then show "list_all one_line ls \<Longrightarrow> text_lines (concat ls) = ls"
    by (simp add: text_lines_def)
qed

lemma the_strs_newline:
  "the_strs xs = Some ss \<Longrightarrow> \<not> list_ex has_newline xs \<Longrightarrow> \<forall>s\<in>set ss. CHR 0x0A \<notin> set s"
proof (induction xs arbitrary: ss)
  case Nil
  then show ?case by simp
next
  case (Cons x xs)
  show ?case
  proof (cases x)
    case (JStr s)
    with Cons.prems(1) obtain ss' where s: "the_strs xs = Some ss'" "ss = s # ss'"
      by (cases "the_strs xs") simp_all
    from Cons.prems(2) have "\<not> list_ex has_newline xs" by simp
    from Cons.IH [OF s(1) this] Cons.prems(2) JStr s(2) show ?thesis by simp
  qed (use Cons.prems(1) in simp_all)
qed

lemma group_title_newline:
  assumes "group_title_of g = Inr t" and "\<not> has_newline g"
  shows "CHR 0x0A \<notin> set t"
proof (cases "py_truthy g")
  case False
  with assms(1) show ?thesis by (auto simp: group_title_of_def)
next
  case True
  with assms(1) have j: "py_join '', '' g = Inr t" by (simp add: group_title_of_def)
  show ?thesis
  proof (cases g)
    case (JArr xs)
    with j obtain ss where ss: "the_strs xs = Some ss" "t = join_str '', '' ss"
      by (cases "the_strs xs") simp_all
    from assms(2) JArr have "\<not> list_ex has_newline xs" by simp
    from the_strs_newline [OF ss(1) this] ss(2) show ?thesis
      by (simp add: join_str_newline)
  next
    case (JStr s)
    with j have t: "t = join_str '', '' (map (\<lambda>c. [c]) s)" by simp
    from assms(2) JStr have "\<forall>x\<in>set (map (\<lambda>c. [c]) s). CHR 0x0A \<notin> set x" by auto
    with t show ?thesis by (simp add: join_str_newline)
  next
    case (JObj kvs)
    with j have t: "t = join_str '', '' (map fst kvs)" by simp
    from assms(2) JObj have "\<forall>x\<in>set (map fst kvs). CHR 0x0A \<notin> set x"
      by (auto simp: list_ex_iff)
    with t show ?thesis by (simp add: join_str_newline)
  qed (use j in simp_all)
qed

lemma dict_get_newline:
  "\<not> has_newline (JObj f) \<Longrightarrow> \<not> has_newline d \<Longrightarrow> \<not> has_newline (dict_get f x d)"
  by (auto simp: dict_get_def list_ex_iff split: option.split dest!: map_of_SomeD)

text \<open>When the two lines of a channel are built, its record is an object, its name a
  string and its group title defined, and the lines are these.\<close>

lemma channel_lines_success:
  assumes "channel_lines (JObj kvs) k = Inr ls"
  shows "\<exists>f n g. map_of kvs k = Some (JObj f)
           \<and> dict_get f ''name'' (JStr ''Unknown Channel'') = JStr n
           \<and> group_title_of (dict_get f ''groups'' (JArr [])) = Inr g
           \<and> ls = [extinf_body k k
                      (if dict_get f ''chno'' JNull \<noteq> JNull
                          \<and> str_isdigit (py_str (dict_get f ''chno'' JNull))
                       then py_str (dict_get f ''chno'' JNull) else [])
                      (map (\<lambda>c. if c = CHR 0x22 then CHR 0x27 else c) n)
                      (py_str (dict_get f ''logo'' (JStr [])))
                      (map (\<lambda>c. if c = CHR 0x22 then CHR 0x27 else c) g)
                      (filter (\<lambda>c. c \<noteq> CHR '','') n) @ [CHR 0x0A],
                    stream_url k @ [CHR 0x0A]]"
proof (cases "map_of kvs k")
  case None
  with assms show ?thesis by (simp add: channel_lines_def bind_exn_def)
next
  case (Some ch)
  show ?thesis
  proof (cases "is_obj ch")
    case False
    from channel_lines_not_obj [OF Some False] assms show ?thesis by simp
  next
    case True
    then obtain f where f: "ch = JObj f" by (cases ch) simp_all
    note eq = channel_lines_obj [OF Some [unfolded f]]
    show ?thesis
    proof (cases "group_title_of (dict_get f ''groups'' (JArr []))")
      case (Inl e)
      with eq assms show ?thesis by (simp add: bind_exn_def)
    next
      case (Inr g)
      show ?thesis
      proof (cases "is_str (dict_get f ''name'' (JStr ''Unknown Channel''))")
        case False
        from format_extinf_not_str [OF False] eq Inr assms show ?thesis
          by (simp add: bind_exn_def)
      next
        case True
        then obtain n where n: "dict_get f ''name'' (JStr ''Unknown Channel'') = JStr n"
          by (cases "dict_get f ''name'' (JStr ''Unknown Channel'')") simp_all
        from eq Inr n assms have "ls = [extinf_body k k
                      (if dict_get f ''chno'' JNull \<noteq> JNull
                          \<and> str_isdigit (py_str (dict_get f ''chno'' JNull))
                       then py_str (dict_get f ''chno'' JNull) else [])
                      (map (\<lambda>c. if c = CHR 0x22 then CHR 0x27 else c) n)
                      (py_str (dict_get f ''logo'' (JStr [])))
                      (map (\<lambda>c. if c = CHR 0x22 then CHR 0x27 else c) g)
                      (filter (\<lambda>c. c \<noteq> CHR '','') n) @ [CHR 0x0A],
                    stream_url k @ [CHR 0x0A]]"
          by (simp add: bind_exn_def format_extinf_body)
        with Some f n Inr show ?thesis by simp
      qed
    qed
  qed
qed

lemma channel_lines_shape:
  assumes "channel_lines (JObj kvs) k = Inr ls"
  shows "\<exists>rest. ls = [''#EXTINF:-1 channel-id=\"'' @ k @ ''\" tvg-id=\"'' @ k @ ''\" '' @ rest @ [CHR 0x0A],
                      ''https://jmp2.uk/str-'' @ k @ ''.m3u8'' @ [CHR 0x0A]]"
proof -
  from channel_lines_success [OF assms] obtain c n l g d where
    "ls = [extinf_body k k c n l g d @ [CHR 0x0A], stream_url k @ [CHR 0x0A]]"
    by (elim exE conjE) (rule that)
  then have "ls = [''#EXTINF:-1 channel-id=\"'' @ k @ ''\" tvg-id=\"'' @ k @ ''\" ''
                     @ (''tvg-chno=\"'' @ c @ ''\" tvg-name=\"'' @ n @ ''\" tvg-logo=\"'' @ l
                        @ ''\" group-title=\"'' @ g @ ''\",'' @ d)
                     @ [CHR 0x0A],
                   ''https://jmp2.uk/str-'' @ k @ ''.m3u8'' @ [CHR 0x0A]]"
    by (simp add: extinf_body_def stream_url_eq)
  note r = this
  show ?thesis by (rule exI, rule r)
qed

lemma channel_lines_one_line:
  assumes "channel_lines (JObj kvs) k = Inr ls" and "\<not> has_newline (JObj kvs)"
  shows "list_all one_line ls"
proof -
  from channel_lines_success [OF assms(1)] obtain f n g where
    f: "map_of kvs k = Some (JObj f)"
    and n: "dict_get f ''name'' (JStr ''Unknown Channel'') = JStr n"
    and g: "group_title_of (dict_get f ''groups'' (JArr [])) = Inr g"
    and ls: "ls = [extinf_body k k
                      (if dict_get f ''chno'' JNull \<noteq> JNull
                          \<and> str_isdigit (py_str (dict_get f ''chno'' JNull))
                       then py_str (dict_get f ''chno'' JNull) else [])
                      (map (\<lambda>c. if c = CHR 0x22 then CHR 0x27 else c) n)
                      (py_str (dict_get f ''logo'' (JStr [])))
                      (map (\<lambda>c. if c = CHR 0x22 then CHR 0x27 else c) g)
                      (filter (\<lambda>c. c \<noteq> CHR '','') n) @ [CHR 0x0A],
                    stream_url k @ [CHR 0x0A]]"
    by (elim exE conjE) (rule that)
  from f have m: "(k, JObj f) \<in> set kvs" by (rule map_of_SomeD)
  from assms(2)
  have "\<forall>kv\<in>set kvs. \<not> (CHR 0x0A \<in> set (fst kv) \<or> has_newline (snd kv))"
    by (simp add: list_ex_iff)
  from bspec [OF this m]
  have "\<not> (CHR 0x0A \<in> set (fst (k, JObj f)) \<or> has_newline (snd (k, JObj f)))" .
  then have k: "CHR 0x0A \<notin> set k" and nf: "\<not> has_newline (JObj f)"
    by (simp_all del: has_newline.simps)
  have "\<not> has_newline (dict_get f ''name'' (JStr ''Unknown Channel''))"
    by (rule dict_get_newline [OF nf]) simp
  with n have nn: "CHR 0x0A \<notin> set n" by simp
  have "\<not> has_newline (dict_get f ''logo'' (JStr []))"
    by (rule dict_get_newline [OF nf]) simp
  then have nl: "CHR 0x0A \<notin> set (py_str (dict_get f ''logo'' (JStr [])))"
    by (rule py_str_newline)
  have "\<not> has_newline (dict_get f ''groups'' (JArr []))"
    by (rule dict_get_newline [OF nf]) simp
  with g have ng: "CHR 0x0A \<notin> set g" by (rule group_title_newline)
  have nc: "CHR 0x0A \<notin> set (if dict_get f ''chno'' JNull \<noteq> JNull
                          \<and> str_isdigit (py_str (dict_get f ''chno'' JNull))
                       then py_str (dict_get f ''chno'' JNull) else [])"
    by (simp add: str_isdigit_no_newline)
  have "CHR 0x0A \<notin> set (extinf_body k k
                      (if dict_get f ''chno'' JNull \<noteq> JNull
                          \<and> str_isdigit (py_str (dict_get f ''chno'' JNull))
                       then py_str (dict_get f ''chno'' JNull) else [])
                      (map (\<lambda>c. if c = CHR 0x22 then CHR 0x27 else c) n)
                      (py_str (dict_get f ''logo'' (JStr [])))
                      (map (\<lambda>c. if c = CHR 0x22 then CHR 0x27 else c) g)
                      (filter (\<lambda>c. c \<noteq> CHR '','') n))"
    using k nn nl ng nc by (intro extinf_body_newline) auto
  then have a: "one_line (extinf_body k k
                      (if dict_get f ''chno'' JNull \<noteq> JNull
                          \<and> str_isdigit (py_str (dict_get f ''chno'' JNull))
                       then py_str (dict_get f ''chno'' JNull) else [])
                      (map (\<lambda>c. if c = CHR 0x22 then CHR 0x27 else c) n)
                      (py_str (dict_get f ''logo'' (JStr [])))
                      (map (\<lambda>c. if c = CHR 0x22 then CHR 0x27 else c) g)
                      (filter (\<lambda>c. c \<noteq> CHR '','') n) @ [CHR 0x0A])"
    by (rule one_line_body)
  from k have "CHR 0x0A \<notin> set (stream_url k)" by (simp add: stream_url_eq)
  then have b: "one_line (stream_url k @ [CHR 0x0A])" by (rule one_line_body)
  from a b ls show ?thesis by simp
qed

lemma channel_lines_ok:
  assumes "map_of kvs k = Some ch" and "channel_ok ch"
  shows "\<exists>ls. channel_lines (JObj kvs) k = Inr ls"
proof -
  from assms(2) obtain f where f: "ch = JObj f" by (cases ch) (simp_all add: channel_ok_def)
  from assms(2) f have "is_str (dict_get f ''name'' (JStr ''Unknown Channel''))"
    by (simp add: channel_ok_def dict_get_def split: option.splits)
  then obtain n where n: "dict_get f ''name'' (JStr ''Unknown Channel'') = JStr n"
    by (cases "dict_get f ''name'' (JStr ''Unknown Channel'')") simp_all
  from assms(2) f
  have "case dict_get f ''groups'' (JArr []) of JArr xs \<Rightarrow> list_all is_str xs | _ \<Rightarrow> False"
    by (simp add: channel_ok_def dict_get_def split: option.splits json.splits)
  then obtain g where g: "group_title_of (dict_get f ''groups'' (JArr [])) = Inr g"
    using group_title_ok by blast
  from channel_lines_obj [OF assms(1) [unfolded f]] n g show ?thesis
    by (simp add: bind_exn_def format_extinf_body)
qed

subsection \<open>The metadata line\<close>

lemma text_lines_newline_inside:
  assumes "CHR 0x0A \<in> set b"
  shows "text_lines (b @ [CHR 0x0A]) \<noteq> [b @ [CHR 0x0A]]"
proof -
  from split_list_first [OF assms] obtain p q where
    b: "b = p @ CHR 0x0A # q" and p: "CHR 0x0A \<notin> set p" by blast
  from split_lines_line [OF p, of "[]" "q @ [CHR 0x0A]"] b
  have "text_lines (b @ [CHR 0x0A]) = (p @ [CHR 0x0A]) # split_lines [] (q @ [CHR 0x0A])"
    by (simp add: text_lines_def)
  moreover have "p @ [CHR 0x0A] \<noteq> b @ [CHR 0x0A]"
    using b by simp
  ultimately show ?thesis by simp
qed

lemma text_lines_single_iff:
  "(text_lines (b @ [CHR 0x0A]) = [b @ [CHR 0x0A]]) = (CHR 0x0A \<notin> set b)"
  using text_lines_single [of b] text_lines_newline_inside [of b] by blast

lemma extinf_body_newline_iff:
  "(CHR 0x0A \<in> set (extinf_body cid tid chno name logo grp disp)) =
   (CHR 0x0A \<in> set cid \<union> set tid \<union> set chno \<union> set name \<union> set logo \<union> set grp \<union> set disp)"
  by (auto simp: extinf_body_def)

text \<open>
  C5 (as amended). For all string arguments (the channel number any value, \<^verbatim>\<open>None\<close>
  included) \<^verbatim>\<open>format_extinf\<close> returns a text that ends with a line feed and has the
  fields in the fixed order channel-id, tvg-id, tvg-chno, tvg-name, tvg-logo,
  group-title, then a comma and the display name. The tvg-chno field is the channel
  number if that is not \<^verbatim>\<open>None\<close> and its string form passes \<^verbatim>\<open>isdigit\<close>, and is empty
  otherwise; every double quote of tvg-name and of group-title has become a single
  quote; every comma of the display name is gone. The text is a single line exactly when
  none of the channel id, the tvg-id, the name, the logo, the group title and the display
  name contains a line feed: line feeds are not sanitised, and the tvg-chno field never
  has one.
\<close>

theorem format_extinf_fields:
  "\<exists>body. format_extinf (JStr cid) (JStr tid) chno (JStr name) (JStr logo) (JStr grp) (JStr disp)
           = Inr (body @ [CHR 0x0A])
     \<and> body = ''#EXTINF:-1 channel-id=\"'' @ cid
              @ ''\" tvg-id=\"'' @ tid
              @ ''\" tvg-chno=\"''
              @ (if chno \<noteq> JNull \<and> str_isdigit (py_str chno) then py_str chno else [])
              @ ''\" tvg-name=\"'' @ map (\<lambda>c. if c = CHR 0x22 then CHR 0x27 else c) name
              @ ''\" tvg-logo=\"'' @ logo
              @ ''\" group-title=\"'' @ map (\<lambda>c. if c = CHR 0x22 then CHR 0x27 else c) grp
              @ ''\",'' @ filter (\<lambda>c. c \<noteq> CHR '','') disp
     \<and> (text_lines (body @ [CHR 0x0A]) = [body @ [CHR 0x0A]])
         = (CHR 0x0A \<notin> set cid \<union> set tid \<union> set name \<union> set logo \<union> set grp \<union> set disp)"
proof -
  let ?c = "if chno \<noteq> JNull \<and> str_isdigit (py_str chno) then py_str chno else []"
  let ?n = "map (\<lambda>c. if c = CHR 0x22 then CHR 0x27 else c) name"
  let ?g = "map (\<lambda>c. if c = CHR 0x22 then CHR 0x27 else c) grp"
  let ?d = "filter (\<lambda>c. c \<noteq> CHR '','') disp"
  let ?body = "extinf_body cid tid ?c ?n logo ?g ?d"
  have eq: "format_extinf (JStr cid) (JStr tid) chno (JStr name) (JStr logo) (JStr grp) (JStr disp)
           = Inr (?body @ [CHR 0x0A])"
    using format_extinf_body [of "JStr cid" "JStr tid" chno name "JStr logo" grp disp] by simp
  have c: "CHR 0x0A \<notin> set ?c" by (simp add: str_isdigit_no_newline)
  have n: "(CHR 0x0A \<in> set ?n) = (CHR 0x0A \<in> set name)" by auto
  have g: "(CHR 0x0A \<in> set ?g) = (CHR 0x0A \<in> set grp)" by auto
  have d: "(CHR 0x0A \<in> set ?d) = (CHR 0x0A \<in> set disp)" by auto
  have "(CHR 0x0A \<notin> set ?body)
      = (CHR 0x0A \<notin> set cid \<union> set tid \<union> set name \<union> set logo \<union> set grp \<union> set disp)"
    unfolding extinf_body_newline_iff using c n g d by blast
  then have l: "(text_lines (?body @ [CHR 0x0A]) = [?body @ [CHR 0x0A]])
      = (CHR 0x0A \<notin> set cid \<union> set tid \<union> set name \<union> set logo \<union> set grp \<union> set disp)"
    by (simp only: text_lines_single_iff)
  have b: "?body = ''#EXTINF:-1 channel-id=\"'' @ cid
              @ ''\" tvg-id=\"'' @ tid
              @ ''\" tvg-chno=\"'' @ ?c
              @ ''\" tvg-name=\"'' @ ?n
              @ ''\" tvg-logo=\"'' @ logo
              @ ''\" group-title=\"'' @ ?g
              @ ''\",'' @ ?d"
    by (simp only: extinf_body_def)
  show ?thesis
    by (rule exI [of _ ?body], intro conjI) (rule eq b l)+
qed

theorem format_extinf_fields_witness:
  "\<exists>body. format_extinf (JStr ''7'') (JStr ''7'') (JStr ''12'') (JStr ''A\"B'') (JStr ''l'')
             (JStr ''News'') (JStr ''News, Live'') = Inr (body @ [CHR 0x0A])
     \<and> body = ''#EXTINF:-1 channel-id=\"7\" tvg-id=\"7\" tvg-chno=\"12\" tvg-name=\"A'' @ [CHR 0x27]
              @ ''B\" tvg-logo=\"l\" group-title=\"News\",News Live''
     \<and> text_lines (body @ [CHR 0x0A]) = [body @ [CHR 0x0A]]"
  using format_extinf_fields [of "''7''" "''7''" "JStr ''12''" "''A\"B''" "''l''" "''News''" "''News, Live''"]
  by (simp add: str_isdigit_def is_digit_char_def)

text \<open>A display name with a line feed in it: the result is two lines.\<close>

theorem format_extinf_line_counterexample:
  "format_extinf (JStr ''7'') (JStr ''7'') JNull (JStr ''a'') (JStr []) (JStr ''N'')
       (JStr ''a\<newline>b'')
     = Inr ''#EXTINF:-1 channel-id=\"7\" tvg-id=\"7\" tvg-chno=\"\" tvg-name=\"a\" tvg-logo=\"\" group-title=\"N\",a\<newline>b\<newline>''
   \<and> text_lines ''#EXTINF:-1 channel-id=\"7\" tvg-id=\"7\" tvg-chno=\"\" tvg-name=\"a\" tvg-logo=\"\" group-title=\"N\",a\<newline>b\<newline>''
     = [''#EXTINF:-1 channel-id=\"7\" tvg-id=\"7\" tvg-chno=\"\" tvg-name=\"a\" tvg-logo=\"\" group-title=\"N\",a\<newline>'',
        ''b\<newline>'']"
  by (simp add: format_extinf_def text_lines_def)

subsection \<open>The loop and the text\<close>

lemma build_entries_all2:
  "build_entries chans ids = Inr ls \<Longrightarrow>
   \<exists>ess. list_all2 (\<lambda>k e. channel_lines chans k = Inr e) ids ess \<and> ls = concat ess"
proof (induction ids arbitrary: ls)
  case Nil
  then show ?case by simp
next
  case (Cons k ids)
  from Cons.prems obtain e where e: "channel_lines chans k = Inr e"
    by (cases "channel_lines chans k") (simp_all add: bind_exn_def)
  with Cons.prems obtain rest where r: "build_entries chans ids = Inr rest" "ls = e @ rest"
    by (cases "build_entries chans ids") (auto simp: bind_exn_def)
  from Cons.IH [OF r(1)] obtain ess where
    "list_all2 (\<lambda>k e. channel_lines chans k = Inr e) ids ess" "rest = concat ess"
    by (elim exE conjE)
  with e r(2) have "list_all2 (\<lambda>k e. channel_lines chans k = Inr e) (k # ids) (e # ess)
      \<and> ls = concat (e # ess)"
    by simp
  then show ?case ..
qed

lemma build_entries_ok:
  "\<forall>k\<in>set ids. \<exists>e. channel_lines chans k = Inr e \<Longrightarrow> \<exists>ls. build_entries chans ids = Inr ls"
proof (induction ids)
  case Nil
  show ?case by simp
next
  case (Cons k ids)
  then obtain e rest where "channel_lines chans k = Inr e" "build_entries chans ids = Inr rest"
    by auto
  then show ?case by (simp add: bind_exn_def)
qed

lemma eval_keys_length: "eval_keys f xs = Inr ks \<Longrightarrow> length ks = length xs"
proof (induction xs arbitrary: ks)
  case Nil
  then show ?case by simp
next
  case (Cons x xs)
  then show ?case
    by (cases "f x"; cases "eval_keys f xs") auto
qed

lemma py_sorted_mset: "py_sorted f xs = Inr ys \<Longrightarrow> mset ys = mset xs"
proof -
  assume a: "py_sorted f xs = Inr ys"
  then obtain ks where ks: "eval_keys f xs = Inr ks"
    by (cases "eval_keys f xs") (simp_all add: py_sorted_def)
  with a have ys: "ys = map snd (sort_key fst (zip ks xs))"
    by (simp add: py_sorted_def)
  from eval_keys_length [OF ks] have "map snd (zip ks xs) = xs" by simp
  then have "mset (map snd (zip ks xs)) = mset xs" by simp
  with ys show ?thesis by simp
qed

lemma channel_order_mset:
  assumes "channel_order (JObj kvs) sort_arg = (failed, Inr ids)"
  shows "mset ids = mset (map fst kvs)"
proof (cases "sorted_channel_ids (JObj kvs) sort_arg")
  case (Inl e)
  with assms show ?thesis by (auto simp: channel_order_def)
next
  case (Inr ys)
  with assms have "ys = ids" by (simp add: channel_order_def)
  with Inr have "py_sorted (chno_key (JObj kvs)) (map fst kvs) = Inr ids
      \<or> py_sorted (name_key (JObj kvs)) (map fst kvs) = Inr ids"
    by (auto simp: sorted_channel_ids_def bind_exn_def split: if_splits)
  then show ?thesis
    by (elim disjE) (erule py_sorted_mset)+
qed

lemma channel_order_obj: "\<exists>ids. snd (channel_order (JObj kvs) sort_arg) = Inr ids"
  by (cases "sorted_channel_ids (JObj kvs) sort_arg") (simp_all add: channel_order_def)

lemma stirr_playlist_channels:
  "py_get data ''channels'' (JObj []) = Inr chans \<Longrightarrow>
   stirr_playlist data sort_arg =
     (fst (channel_order chans sort_arg),
      bind_exn (snd (channel_order chans sort_arg)) (\<lambda>sorted_ids.
      bind_exn (build_entries chans sorted_ids) (\<lambda>ls.
      Inr (concat (header_line # ls)))))"
  by (simp add: stirr_playlist_def split: prod.split)

lemma header_line_one_line: "one_line header_line"
  unfolding header_line_def EPG_URL_def
  by (simp only: append_assoc [symmetric]) (rule one_line_body, simp)

subsection \<open>The playlist text\<close>

lemma no_channels_with_channels:
  "map_of d ''channels'' = Some c \<Longrightarrow> no_channels (JObj d) = Inr False"
proof -
  assume a: "map_of d ''channels'' = Some c"
  then have "(''channels'', c) \<in> set d" by (rule map_of_SomeD)
  then have "d \<noteq> []" "''channels'' \<in> fst ` set d" by force+
  then show ?thesis by (simp add: no_channels_def bind_exn_def)
qed

text \<open>
  C1 (as amended). For every fetched catalog whose \<^verbatim>\<open>channels\<close> is a mapping of N channels
  (each key once) and for which the playlist text is produced: the text is handed to
  \<^verbatim>\<open>write_m3u_file\<close>; it is the header line followed, for each channel in the order chosen
  by the sort (or the fallback), by the two entries of that channel, the \<^verbatim>\<open>#EXTINF\<close> entry
  with the channel's id and right after it the stream URL of the same id, each ending
  with a line feed; the order has every channel of the catalog exactly once. When no
  string of the catalog contains a line feed, the lines of the text are exactly these
  entries: one header line and 2 * N more. (A line feed in an id, a name, a logo or a
  group label is copied to the text, which then has more lines.)
\<close>

theorem playlist_lines:
  assumes "fetch_url env STIRR_URL True True None False
             (log INFO ''--- Generating Stirr playlist ---'' w) = (Value (JObj d), w1)"
    and "map_of d ''channels'' = Some (JObj kvs)"
    and "distinct (map fst kvs)"
    and "stirr_playlist (JObj d) sort_arg = (failed, Inr text)"
  shows "generate_stirr_m3u env sort_arg w =
           write_m3u_file env ''stirr_all.m3u'' text
             (if failed
              then log WARNING ''Sorting failed for Stirr, using default order. Error: '' w1
              else w1)
       \<and> (\<exists>ids ess.
             channel_order (JObj kvs) sort_arg = (failed, Inr ids)
           \<and> mset ids = mset (map fst kvs) \<and> distinct ids
           \<and> list_all2
                (\<lambda>k ls. channel_lines (JObj kvs) k = Inr ls
                   \<and> (\<exists>rest. ls = [''#EXTINF:-1 channel-id=\"'' @ k @ ''\" tvg-id=\"'' @ k @ ''\" ''
                                       @ rest @ [CHR 0x0A],
                                     ''https://jmp2.uk/str-'' @ k @ ''.m3u8'' @ [CHR 0x0A]]))
                ids ess
           \<and> text = concat (header_line # concat ess)
           \<and> (\<not> has_newline (JObj kvs) \<longrightarrow>
                text_lines text = header_line # concat ess
                \<and> length (text_lines text) = 1 + 2 * length kvs))"
proof
  from no_channels_with_channels [OF assms(2)] have n: "no_channels (JObj d) = Inr False" .
  from generate_playlist [OF assms(1) n assms(4)]
  show "generate_stirr_m3u env sort_arg w =
           write_m3u_file env ''stirr_all.m3u'' text
             (if failed
              then log WARNING ''Sorting failed for Stirr, using default order. Error: '' w1
              else w1)"
    by simp
next
  let ?chans = "JObj kvs"
  from assms(2) have g: "py_get (JObj d) ''channels'' (JObj []) = Inr ?chans"
    by (simp add: dict_get_def)
  note p = stirr_playlist_channels [OF g, of sort_arg]
  from channel_order_obj [of kvs sort_arg] obtain ids where
    ids: "snd (channel_order ?chans sort_arg) = Inr ids" ..
  from p assms(4) have f: "fst (channel_order ?chans sort_arg) = failed" by simp
  with ids have o: "channel_order ?chans sort_arg = (failed, Inr ids)"
    by (cases "channel_order ?chans sort_arg") simp
  from p assms(4) ids obtain ls where
    ls: "build_entries ?chans ids = Inr ls" "text = concat (header_line # ls)"
    by (cases "build_entries ?chans ids") (auto simp: bind_exn_def)
  from build_entries_all2 [OF ls(1)] obtain ess where
    ess: "list_all2 (\<lambda>k e. channel_lines ?chans k = Inr e) ids ess" "ls = concat ess"
    by (elim exE conjE)
  from channel_order_mset [OF o] have m: "mset ids = mset (map fst kvs)" .
  then have "distinct ids = distinct (map fst kvs)" by (rule mset_eq_imp_distinct_iff)
  with assms(3) have dist: "distinct ids" by simp
  have shape: "list_all2
                (\<lambda>k ls. channel_lines ?chans k = Inr ls
                   \<and> (\<exists>rest. ls = [''#EXTINF:-1 channel-id=\"'' @ k @ ''\" tvg-id=\"'' @ k @ ''\" ''
                                       @ rest @ [CHR 0x0A],
                                     ''https://jmp2.uk/str-'' @ k @ ''.m3u8'' @ [CHR 0x0A]]))
                ids ess"
    using ess(1)
  proof (rule list_all2_mono)
    fix k e assume c: "channel_lines ?chans k = Inr e"
    from c channel_lines_shape [OF c]
    show "channel_lines ?chans k = Inr e
            \<and> (\<exists>rest. e = [''#EXTINF:-1 channel-id=\"'' @ k @ ''\" tvg-id=\"'' @ k @ ''\" ''
                                @ rest @ [CHR 0x0A],
                              ''https://jmp2.uk/str-'' @ k @ ''.m3u8'' @ [CHR 0x0A]])"
      by (rule conjI)
  qed
  have len: "length (concat ess) = 2 * length kvs"
  proof -
    have "\<forall>e\<in>set ess. length e = 2"
    proof
      fix e assume "e \<in> set ess"
      with ess(1) obtain k where "channel_lines ?chans k = Inr e"
        by (auto simp: list_all2_conv_all_nth in_set_conv_nth)
      from channel_lines_shape [OF this] show "length e = 2" by auto
    qed
    then have "length (concat ess) = 2 * length ess"
      by (induction ess) simp_all
    moreover from ess(1) have "length ess = length ids" by (simp add: list_all2_lengthD)
    moreover from m have "length ids = length (map fst kvs)" by (rule mset_eq_length)
    ultimately show ?thesis by simp
  qed
  have lines: "text_lines text = header_line # concat ess" if nn: "\<not> has_newline ?chans"
  proof -
    have "\<forall>e\<in>set ess. list_all one_line e"
    proof
      fix e assume "e \<in> set ess"
      with ess(1) obtain k where "channel_lines ?chans k = Inr e"
        by (auto simp: list_all2_conv_all_nth in_set_conv_nth)
      from channel_lines_one_line [OF this nn] show "list_all one_line e" .
    qed
    then have "list_all one_line (concat ess)"
      by (auto simp: list_all_iff)
    with header_line_one_line have "list_all one_line (header_line # concat ess)" by simp
    from text_lines_concat [OF this] ls(2) ess(2) show ?thesis by simp
  qed
  have nlpart: "\<not> has_newline ?chans \<longrightarrow>
          text_lines text = header_line # concat ess
          \<and> length (text_lines text) = 1 + 2 * length kvs"
  proof (intro impI conjI)
    assume nn: "\<not> has_newline ?chans"
    from lines [OF nn] show "text_lines text = header_line # concat ess" .
    from lines [OF nn] len show "length (text_lines text) = 1 + 2 * length kvs" by simp
  qed
  from ls(2) ess(2) have t: "text = concat (header_line # concat ess)" by simp
  show "\<exists>ids ess.
             channel_order (JObj kvs) sort_arg = (failed, Inr ids)
           \<and> mset ids = mset (map fst kvs) \<and> distinct ids
           \<and> list_all2
                (\<lambda>k ls. channel_lines (JObj kvs) k = Inr ls
                   \<and> (\<exists>rest. ls = [''#EXTINF:-1 channel-id=\"'' @ k @ ''\" tvg-id=\"'' @ k @ ''\" ''
                                       @ rest @ [CHR 0x0A],
                                     ''https://jmp2.uk/str-'' @ k @ ''.m3u8'' @ [CHR 0x0A]]))
                ids ess
           \<and> text = concat (header_line # concat ess)
           \<and> (\<not> has_newline (JObj kvs) \<longrightarrow>
                text_lines text = header_line # concat ess
                \<and> length (text_lines text) = 1 + 2 * length kvs)"
    by (rule exI, rule exI, intro conjI) (rule o m dist shape t nlpart)+
qed

subsection \<open>Writing the file\<close>

lemma stirr_path: "path_join OUTPUT_DIR ''stirr_all.m3u'' = ''playlists/stirr_all.m3u''"
  by (simp add: path_join_def OUTPUT_DIR_def)

lemma ensure_output_dir_files: "files (snd (ensure_output_dir env w)) = files w"
  by (simp add: ensure_output_dir_def split: option.split)

lemma ensure_output_dir_ok:
  "path_exists w OUTPUT_DIR \<or> makedirs env OUTPUT_DIR = None \<Longrightarrow>
   fst (ensure_output_dir env w) = None"
  by (auto simp: ensure_output_dir_def)

lemma ensure_output_dir_fails:
  "\<not> path_exists w OUTPUT_DIR \<Longrightarrow> makedirs env OUTPUT_DIR = Some e \<Longrightarrow>
   ensure_output_dir env w = (Some e, log INFO (''Creating output directory: '' @ OUTPUT_DIR) w)"
  by (simp add: ensure_output_dir_def)

lemma write_text_ok:
  "write_file env p t = WriteOk \<Longrightarrow>
   write_text env p t w =
     (None, log INFO (''Successfully wrote playlist to '' @ p) (w\<lparr>files := (files w)(p \<mapsto> t)\<rparr>))"
  by (simp add: write_text_def)

lemma write_text_caught:
  "write_file env p t = WriteFailed e left \<Longrightarrow> is_IOError e \<Longrightarrow>
   write_text env p t w =
     (None, log ERROR (''Error writing file '' @ p @ '': '')
              (case left of None \<Rightarrow> w | Some x \<Rightarrow> w\<lparr>files := (files w)(p \<mapsto> x)\<rparr>))"
  by (simp add: write_text_def)

lemma write_text_no_raise:
  "\<forall>e left. write_file env p t = WriteFailed e left \<longrightarrow> is_IOError e \<Longrightarrow>
   fst (write_text env p t w) = None"
  by (cases "write_file env p t") (simp_all add: write_text_def Let_def)

lemma write_m3u_file_mkdir_fails:
  "\<not> path_exists w OUTPUT_DIR \<Longrightarrow> makedirs env OUTPUT_DIR = Some e \<Longrightarrow>
   write_m3u_file env filename text w
     = (Some e, log INFO (''Creating output directory: '' @ OUTPUT_DIR) w)"
  by (simp add: write_m3u_file_def ensure_output_dir_fails)

lemma write_m3u_file_dir:
  assumes "path_exists w OUTPUT_DIR \<or> makedirs env OUTPUT_DIR = None"
  shows "write_m3u_file env filename text w
           = write_text env (path_join OUTPUT_DIR filename) text (snd (ensure_output_dir env w))"
proof -
  from ensure_output_dir_ok [OF assms]
  obtain w1 where e: "ensure_output_dir env w = (None, w1)"
    by (cases "ensure_output_dir env w") simp
  then show ?thesis
    by (simp add: write_m3u_file_def)
qed

lemma write_m3u_file_written:
  assumes "path_exists w OUTPUT_DIR \<or> makedirs env OUTPUT_DIR = None"
    and "write_file env (path_join OUTPUT_DIR filename) text = WriteOk"
  shows "fst (write_m3u_file env filename text w) = None
       \<and> files (snd (write_m3u_file env filename text w))
           = (files w)(path_join OUTPUT_DIR filename \<mapsto> text)"
  by (simp add: write_m3u_file_dir [OF assms(1)] write_text_ok [OF assms(2)]
      ensure_output_dir_files)

lemma write_m3u_file_caught:
  assumes "path_exists w OUTPUT_DIR \<or> makedirs env OUTPUT_DIR = None"
    and "write_file env (path_join OUTPUT_DIR filename) text = WriteFailed e left"
    and "is_IOError e"
  shows "fst (write_m3u_file env filename text w) = None
       \<and> last (logs (snd (write_m3u_file env filename text w)))
           = (ERROR, ''Error writing file '' @ path_join OUTPUT_DIR filename @ '': '')"
  by (simp add: write_m3u_file_dir [OF assms(1)] write_text_caught [OF assms(2,3)])

lemma write_m3u_file_no_raise:
  assumes "path_exists w OUTPUT_DIR \<or> makedirs env OUTPUT_DIR = None"
    and "\<forall>e left. write_file env (path_join OUTPUT_DIR filename) text = WriteFailed e left
           \<longrightarrow> is_IOError e"
  shows "fst (write_m3u_file env filename text w) = None"
  by (simp add: write_m3u_file_dir [OF assms(1)] write_text_no_raise [OF assms(2)])

subsection \<open>Example runs\<close>

lemma catalog_env_fetch:
  "fetch_url (catalog_env data mk wr) STIRR_URL True True None False
     (log INFO ''--- Generating Stirr playlist ---'' world0) = (Value data, fetched_world)"
  by (simp add: catalog_env_def fetched_world_def fixed_env_fetch)

lemma catalog_env_fs [simp]:
  "makedirs (catalog_env data mk wr) p = mk"
  "write_file (catalog_env data mk wr) p t = wr"
  by (simp_all add: catalog_env_def fixed_env_def)

lemma fetched_world_fs [simp]:
  "dirs fetched_world = {}"
  "files fetched_world = Map.empty"
  by (simp_all add: fetched_world_def world0_def)

lemma playlist_name_eval: "stirr_playlist data_name ''name'' = (False, Inr playlist_name)"
  by code_simp

lemma playlist_newline_eval: "stirr_playlist data_newline ''name'' = (False, Inr playlist_newline)"
  by code_simp

text \<open>One channel whose name has a line feed: five lines, not three.\<close>

theorem playlist_lines_counterexample:
  "files (snd (generate_stirr_m3u (catalog_env data_newline None WriteOk) ''name'' world0))
       ''playlists/stirr_all.m3u'' = Some playlist_newline
   \<and> text_lines playlist_newline =
       [header_line,
        ''#EXTINF:-1 channel-id=\"a\" tvg-id=\"a\" tvg-chno=\"\" tvg-name=\"x\<newline>'',
        ''y\" tvg-logo=\"\" group-title=\"Uncategorized\",x\<newline>'',
        ''y\<newline>'',
        ''https://jmp2.uk/str-a.m3u8\<newline>'']"
proof
  have n: "no_channels data_newline = Inr False"
    unfolding data_newline_def by (rule no_channels_with_channels) simp
  from generate_playlist [OF catalog_env_fetch n playlist_newline_eval]
  have g: "generate_stirr_m3u (catalog_env data_newline None WriteOk) ''name'' world0
             = write_m3u_file (catalog_env data_newline None WriteOk) ''stirr_all.m3u''
                 playlist_newline fetched_world"
    by simp
  have "files (snd (write_m3u_file (catalog_env data_newline None WriteOk) ''stirr_all.m3u''
                 playlist_newline fetched_world))
          = (files fetched_world)(path_join OUTPUT_DIR ''stirr_all.m3u'' \<mapsto> playlist_newline)"
    by (rule write_m3u_file_written [THEN conjunct2]) simp_all
  with g show "files (snd (generate_stirr_m3u (catalog_env data_newline None WriteOk) ''name'' world0))
       ''playlists/stirr_all.m3u'' = Some playlist_newline"
    by (simp add: stirr_path)
next
  show "text_lines playlist_newline =
       [header_line,
        ''#EXTINF:-1 channel-id=\"a\" tvg-id=\"a\" tvg-chno=\"\" tvg-name=\"x\<newline>'',
        ''y\" tvg-logo=\"\" group-title=\"Uncategorized\",x\<newline>'',
        ''y\<newline>'',
        ''https://jmp2.uk/str-a.m3u8\<newline>'']"
    by code_simp
qed

theorem playlist_lines_witness:
  "generate_stirr_m3u (catalog_env data_name None WriteOk) ''name'' world0 =
     write_m3u_file (catalog_env data_name None WriteOk) ''stirr_all.m3u'' playlist_name fetched_world
   \<and> (\<exists>ids ess.
         channel_order (JObj catalog_name) ''name'' = (False, Inr ids)
       \<and> mset ids = mset (map fst catalog_name) \<and> distinct ids
       \<and> playlist_name = concat (header_line # concat ess)
       \<and> text_lines playlist_name = header_line # concat ess
       \<and> length (text_lines playlist_name) = 7)"
proof -
  have m: "map_of [(''channels'', JObj catalog_name)] ''channels'' = Some (JObj catalog_name)"
    by simp
  have d: "distinct (map fst catalog_name)"
    by (simp add: catalog_name_def)
  have nn: "\<not> has_newline (JObj catalog_name)"
    by (simp add: catalog_name_def)
  have l: "length catalog_name = 3"
    by (simp add: catalog_name_def)
  note t = playlist_lines [OF catalog_env_fetch [of "JObj [(''channels'', JObj catalog_name)]"] m d
      playlist_name_eval [unfolded data_name_def], of None WriteOk]
  from t have g: "generate_stirr_m3u (catalog_env data_name None WriteOk) ''name'' world0 =
     write_m3u_file (catalog_env data_name None WriteOk) ''stirr_all.m3u'' playlist_name fetched_world"
    by (simp add: data_name_def)
  from t obtain ids ess where
    o: "channel_order (JObj catalog_name) ''name'' = (False, Inr ids)"
    and ms: "mset ids = mset (map fst catalog_name)" and di: "distinct ids"
    and pn: "playlist_name = concat (header_line # concat ess)"
    and imp: "\<not> has_newline (JObj catalog_name) \<longrightarrow>
       text_lines playlist_name = header_line # concat ess
       \<and> length (text_lines playlist_name) = 1 + 2 * length catalog_name"
    by (elim conjE exE)
  from imp nn have a: "text_lines playlist_name = header_line # concat ess
       \<and> length (text_lines playlist_name) = 1 + 2 * length catalog_name"
    by (rule mp)
  from a have tl: "text_lines playlist_name = header_line # concat ess" by (rule conjunct1)
  from a have "length (text_lines playlist_name) = 1 + 2 * length catalog_name"
    by (rule conjunct2)
  with l have ln: "length (text_lines playlist_name) = 7" by simp
  have "\<exists>ids ess.
         channel_order (JObj catalog_name) ''name'' = (False, Inr ids)
       \<and> mset ids = mset (map fst catalog_name) \<and> distinct ids
       \<and> playlist_name = concat (header_line # concat ess)
       \<and> text_lines playlist_name = header_line # concat ess
       \<and> length (text_lines playlist_name) = 7"
    by (rule exI, rule exI, intro conjI) (rule o ms di pn tl ln)+
  with g show ?thesis by (rule conjI)
qed

subsection \<open>No exception, one text\<close>

lemma stirr_playlist_ok:
  assumes "map_of d ''channels'' = Some (JObj kvs)"
    and "list_all channel_ok (map snd kvs)"
  shows "\<exists>failed text. stirr_playlist (JObj d) sort_arg = (failed, Inr text)"
proof -
  from assms(1) have g: "py_get (JObj d) ''channels'' (JObj []) = Inr (JObj kvs)"
    by (simp add: dict_get_def)
  obtain failed r where o: "channel_order (JObj kvs) sort_arg = (failed, r)"
    by (cases "channel_order (JObj kvs) sort_arg")
  with channel_order_obj [of kvs sort_arg] obtain ids where ids: "r = Inr ids" by auto
  from channel_order_mset [OF o [unfolded ids]] have "set ids = set (map fst kvs)"
    by (rule mset_eq_setD)
  have "\<forall>k\<in>set ids. \<exists>e. channel_lines (JObj kvs) k = Inr e"
  proof
    fix k assume "k \<in> set ids"
    with \<open>set ids = set (map fst kvs)\<close> have "k \<in> fst ` set kvs" by simp
    then have "map_of kvs k \<noteq> None" by (simp add: map_of_eq_None_iff)
    then obtain ch where ch: "map_of kvs k = Some ch" by auto
    then have "(k, ch) \<in> set kvs" by (rule map_of_SomeD)
    then have "ch \<in> set (map snd kvs)" by force
    with assms(2) have "channel_ok ch" by (auto simp: list_all_iff)
    with ch show "\<exists>e. channel_lines (JObj kvs) k = Inr e" by (rule channel_lines_ok)
  qed
  from build_entries_ok [OF this] obtain ls where "build_entries (JObj kvs) ids = Inr ls" ..
  with stirr_playlist_channels [OF g, of sort_arg] o ids
  have "stirr_playlist (JObj d) sort_arg = (failed, Inr (concat (header_line # ls)))"
    by (simp add: bind_exn_def)
  then show ?thesis by (intro exI)
qed

lemma no_channels_without:
  "map_of d ''channels'' = None \<Longrightarrow> no_channels (JObj d) = Inr True"
  by (simp add: no_channels_def bind_exn_def map_of_eq_None_iff)

text \<open>
  C8 (as amended). For every fetched catalog of the data model (\<^verbatim>\<open>None\<close>, or an object
  whose \<^verbatim>\<open>channels\<close>, if present, maps to objects with a string name and a list of strings
  as groups, where present), when the output path exists or the directory can be made,
  and when every failure of opening or writing the file is an I/O error (\<^verbatim>\<open>OSError\<close>, the
  class that \<^verbatim>\<open>except IOError\<close> catches): no exception leaves \<^verbatim>\<open>generate_stirr_m3u\<close>. In
  particular \<^verbatim>\<open>write_m3u_file\<close>, when the path exists or the directory can be made, logs
  such an I/O error of opening or writing the file and returns without raising. (An
  exception of \<^verbatim>\<open>os.makedirs\<close>, an exception of another class while writing, such as an
  encoding error, and an exception of the loop over the channels are not caught.)
\<close>

theorem generate_no_exception:
  assumes "fetch_url env STIRR_URL True True None False
             (log INFO ''--- Generating Stirr playlist ---'' w) = (Value data, w1)"
    and "catalog_ok data"
    and "path_exists w OUTPUT_DIR \<or> makedirs env OUTPUT_DIR = None"
    and "\<forall>p t e left. write_file env p t = WriteFailed e left \<longrightarrow> is_IOError e"
  shows "fst (generate_stirr_m3u env sort_arg w) = None
       \<and> (\<forall>filename text w'.
             path_exists w' OUTPUT_DIR \<or> makedirs env OUTPUT_DIR = None \<longrightarrow>
             fst (write_m3u_file env filename text w') = None
             \<and> (\<forall>e left. write_file env (path_join OUTPUT_DIR filename) text = WriteFailed e left \<longrightarrow>
                   last (logs (snd (write_m3u_file env filename text w')))
                     = (ERROR, ''Error writing file '' @ path_join OUTPUT_DIR filename @ '': '')))"
proof
  from fetch_url_world_eq [OF assms(1)]
  have fs: "path_exists w1 OUTPUT_DIR = path_exists w OUTPUT_DIR"
    by (simp add: path_exists_def)
  have wr: "fst (write_m3u_file env ''stirr_all.m3u'' tx w2) = None"
    if "path_exists w2 OUTPUT_DIR = path_exists w OUTPUT_DIR" for tx w2
  proof -
    from that assms(3) have "path_exists w2 OUTPUT_DIR \<or> makedirs env OUTPUT_DIR = None" by simp
    moreover from assms(4)
    have "\<forall>e left. write_file env (path_join OUTPUT_DIR ''stirr_all.m3u'') tx = WriteFailed e left
            \<longrightarrow> is_IOError e" by simp
    ultimately show ?thesis by (rule write_m3u_file_no_raise)
  qed
  show "fst (generate_stirr_m3u env sort_arg w) = None"
  proof (cases data)
    case JNull
    then have "no_channels data = Inr True" by (simp add: no_channels_falsy)
    from generate_no_data [OF assms(1) this] show ?thesis by simp
  next
    case (JObj d)
    show ?thesis
    proof (cases "map_of d ''channels''")
      case None
      with JObj have "no_channels data = Inr True" by (simp add: no_channels_without)
      from generate_no_data [OF assms(1) this] show ?thesis by simp
    next
      case (Some c)
      with assms(2) JObj obtain kvs where c: "c = JObj kvs"
        and ok: "list_all channel_ok (map snd kvs)"
        by (cases c) (simp_all add: catalog_ok_def)
      from Some JObj have n: "no_channels data = Inr False"
        by (simp add: no_channels_with_channels)
      from stirr_playlist_ok [OF Some [unfolded c] ok, of sort_arg] JObj
      obtain failed tx where p: "stirr_playlist data sort_arg = (failed, Inr tx)" by auto
      from generate_playlist [OF assms(1) n p] fs show ?thesis
        by (simp add: wr)
    qed
  qed (use assms(2) in \<open>simp_all add: catalog_ok_def\<close>)
next
  show "\<forall>filename text w'.
             path_exists w' OUTPUT_DIR \<or> makedirs env OUTPUT_DIR = None \<longrightarrow>
             fst (write_m3u_file env filename text w') = None
             \<and> (\<forall>e left. write_file env (path_join OUTPUT_DIR filename) text = WriteFailed e left \<longrightarrow>
                   last (logs (snd (write_m3u_file env filename text w')))
                     = (ERROR, ''Error writing file '' @ path_join OUTPUT_DIR filename @ '': ''))"
  proof (intro allI impI conjI)
    fix filename tx and w' :: world and e left
    assume d: "path_exists w' OUTPUT_DIR \<or> makedirs env OUTPUT_DIR = None"
    from assms(4)
    have "\<forall>e left. write_file env (path_join OUTPUT_DIR filename) tx = WriteFailed e left
            \<longrightarrow> is_IOError e" by simp
    with d show "fst (write_m3u_file env filename tx w') = None"
      by (rule write_m3u_file_no_raise)
    assume f: "write_file env (path_join OUTPUT_DIR filename) tx = WriteFailed e left"
    with assms(4) have "is_IOError e" by blast
    from write_m3u_file_caught [OF d f this]
    show "last (logs (snd (write_m3u_file env filename tx w')))
            = (ERROR, ''Error writing file '' @ path_join OUTPUT_DIR filename @ '': '')"
      by simp
  qed
qed

lemma catalog_ok_data_name: "catalog_ok data_name"
  by (simp add: data_name_def catalog_ok_def catalog_name_def channel_ok_def)

theorem generate_no_exception_witness:
  "fst (generate_stirr_m3u (catalog_env data_name None (WriteFailed OSError None)) ''name'' world0) = None
   \<and> fst (write_m3u_file (catalog_env data_name None (WriteFailed OSError None))
            ''stirr_all.m3u'' playlist_name fetched_world) = None
   \<and> last (logs (snd (write_m3u_file (catalog_env data_name None (WriteFailed OSError None))
                         ''stirr_all.m3u'' playlist_name fetched_world)))
       = (ERROR, ''Error writing file playlists/stirr_all.m3u: '')"
proof -
  let ?env = "catalog_env data_name None (WriteFailed OSError None)"
  have d: "path_exists world0 OUTPUT_DIR \<or> makedirs ?env OUTPUT_DIR = None" by simp
  have io: "\<forall>p t e left. write_file ?env p t = WriteFailed e left \<longrightarrow> is_IOError e" by simp
  note t = generate_no_exception [OF catalog_env_fetch catalog_ok_data_name d io, of "''name''"]
  from t have a: "fst (generate_stirr_m3u ?env ''name'' world0) = None" by (rule conjunct1)
  from t have "path_exists fetched_world OUTPUT_DIR \<or> makedirs ?env OUTPUT_DIR = None \<longrightarrow>
             fst (write_m3u_file ?env ''stirr_all.m3u'' playlist_name fetched_world) = None
             \<and> (\<forall>e left. write_file ?env (path_join OUTPUT_DIR ''stirr_all.m3u'') playlist_name
                           = WriteFailed e left \<longrightarrow>
                   last (logs (snd (write_m3u_file ?env ''stirr_all.m3u'' playlist_name fetched_world)))
                     = (ERROR, ''Error writing file '' @ path_join OUTPUT_DIR ''stirr_all.m3u'' @ '': ''))"
    by (elim conjE allE)
  then have b: "fst (write_m3u_file ?env ''stirr_all.m3u'' playlist_name fetched_world) = None"
    and c: "last (logs (snd (write_m3u_file ?env ''stirr_all.m3u'' playlist_name fetched_world)))
              = (ERROR, ''Error writing file playlists/stirr_all.m3u: '')"
    by (simp_all add: stirr_path)
  from a b c show ?thesis by (intro conjI)
qed

text \<open>The output directory is missing and cannot be made; a channel record is a number.\<close>

theorem generate_no_exception_counterexample:
  "generate_stirr_m3u (catalog_env data_name (Some OSError) WriteOk) ''name'' world0
     = (Some OSError, log INFO ''Creating output directory: playlists'' fetched_world)
   \<and> generate_stirr_m3u (catalog_env (JObj [(''channels'', JObj [(''a'', JInt 5)])]) None WriteOk)
        ''name'' world0
     = (Some AttributeError,
        log WARNING ''Sorting failed for Stirr, using default order. Error: '' fetched_world)"
proof
  have n: "no_channels data_name = Inr False"
    unfolding data_name_def by (rule no_channels_with_channels) simp
  from generate_playlist [OF catalog_env_fetch n playlist_name_eval]
  have "generate_stirr_m3u (catalog_env data_name (Some OSError) WriteOk) ''name'' world0
          = write_m3u_file (catalog_env data_name (Some OSError) WriteOk) ''stirr_all.m3u''
              playlist_name fetched_world"
    by simp
  then show "generate_stirr_m3u (catalog_env data_name (Some OSError) WriteOk) ''name'' world0
     = (Some OSError, log INFO ''Creating output directory: playlists'' fetched_world)"
    by (simp add: write_m3u_file_mkdir_fails path_exists_def OUTPUT_DIR_def)
next
  let ?data = "JObj [(''channels'', JObj [(''a'', JInt 5)])]"
  have n: "no_channels ?data = Inr False"
    by (rule no_channels_with_channels) simp
  have p: "stirr_playlist ?data ''name'' = (True, Inl AttributeError)"
    by code_simp
  from generate_playlist [OF catalog_env_fetch n p]
  show "generate_stirr_m3u (catalog_env ?data None WriteOk) ''name'' world0
     = (Some AttributeError,
        log WARNING ''Sorting failed for Stirr, using default order. Error: '' fetched_world)"
    by simp
qed

subsection \<open>Determinism and the fallback order\<close>

text \<open>
  C9. Two runs of the pipeline over the same fetched catalog, with the same sort key, in
  any two environments and worlds in which the output directory is there or can be made
  and writing succeeds: either neither run touches a file and both end alike, or both
  write to \<^verbatim>\<open>playlists/stirr_all.m3u\<close> the same text, which is the value of a function of
  the catalog and the sort key alone.
\<close>

theorem generate_deterministic:
  assumes "fetch_url env1 STIRR_URL True True None False
             (log INFO ''--- Generating Stirr playlist ---'' w1) = (Value data, v1)"
    and "fetch_url env2 STIRR_URL True True None False
             (log INFO ''--- Generating Stirr playlist ---'' w2) = (Value data, v2)"
    and "OUTPUT_DIR \<in> dirs w1 \<or> makedirs env1 OUTPUT_DIR = None"
    and "OUTPUT_DIR \<in> dirs w2 \<or> makedirs env2 OUTPUT_DIR = None"
    and "\<forall>p t. write_file env1 p t = WriteOk"
    and "\<forall>p t. write_file env2 p t = WriteOk"
  shows "(fst (generate_stirr_m3u env1 sort_arg w1) = fst (generate_stirr_m3u env2 sort_arg w2)
          \<and> files (snd (generate_stirr_m3u env1 sort_arg w1)) = files w1
          \<and> files (snd (generate_stirr_m3u env2 sort_arg w2)) = files w2)
       \<or> (\<exists>text. snd (stirr_playlist data sort_arg) = Inr text
            \<and> files (snd (generate_stirr_m3u env1 sort_arg w1))
                = (files w1)(''playlists/stirr_all.m3u'' \<mapsto> text)
            \<and> files (snd (generate_stirr_m3u env2 sort_arg w2))
                = (files w2)(''playlists/stirr_all.m3u'' \<mapsto> text))"
proof -
  from fetch_url_world_eq [OF assms(1)] have f1: "files v1 = files w1" "dirs v1 = dirs w1"
    by simp_all
  from fetch_url_world_eq [OF assms(2)] have f2: "files v2 = files w2" "dirs v2 = dirs w2"
    by simp_all
  show ?thesis
  proof (cases "no_channels data")
    case (Inl e)
    from generate_test_raises [OF assms(1) Inl, of sort_arg]
      generate_test_raises [OF assms(2) Inl, of sort_arg] f1 f2
    show ?thesis by simp
  next
    case (Inr b)
    show ?thesis
    proof (cases b)
      case True
      with Inr have n: "no_channels data = Inr True" by simp
      from generate_no_data [OF assms(1) n, of sort_arg]
        generate_no_data [OF assms(2) n, of sort_arg] f1 f2
      show ?thesis by simp
    next
      case False
      with Inr have n: "no_channels data = Inr False" by simp
      obtain failed r where p: "stirr_playlist data sort_arg = (failed, r)"
        by (cases "stirr_playlist data sort_arg")
      note g1 = generate_playlist [OF assms(1) n p]
      note g2 = generate_playlist [OF assms(2) n p]
      show ?thesis
      proof (cases r)
        case (Inl e)
        with g1 g2 f1 f2 show ?thesis by simp
      next
        case (Inr tx)
        let ?u1 = "if failed
                   then log WARNING ''Sorting failed for Stirr, using default order. Error: '' v1
                   else v1"
        let ?u2 = "if failed
                   then log WARNING ''Sorting failed for Stirr, using default order. Error: '' v2
                   else v2"
        from f1 assms(3) have d1: "path_exists ?u1 OUTPUT_DIR \<or> makedirs env1 OUTPUT_DIR = None"
          by (auto simp: path_exists_def)
        from f2 assms(4) have d2: "path_exists ?u2 OUTPUT_DIR \<or> makedirs env2 OUTPUT_DIR = None"
          by (auto simp: path_exists_def)
        from assms(5) have o1: "write_file env1 (path_join OUTPUT_DIR ''stirr_all.m3u'') tx = WriteOk"
          by simp
        from assms(6) have o2: "write_file env2 (path_join OUTPUT_DIR ''stirr_all.m3u'') tx = WriteOk"
          by simp
        from write_m3u_file_written [OF d1 o1] g1 Inr f1
        have a: "files (snd (generate_stirr_m3u env1 sort_arg w1))
                = (files w1)(''playlists/stirr_all.m3u'' \<mapsto> tx)"
          by (simp add: stirr_path)
        from write_m3u_file_written [OF d2 o2] g2 Inr f2
        have b: "files (snd (generate_stirr_m3u env2 sort_arg w2))
                = (files w2)(''playlists/stirr_all.m3u'' \<mapsto> tx)"
          by (simp add: stirr_path)
        from p Inr have c: "snd (stirr_playlist data sort_arg) = Inr tx" by simp
        have "\<exists>text. snd (stirr_playlist data sort_arg) = Inr text
            \<and> files (snd (generate_stirr_m3u env1 sort_arg w1))
                = (files w1)(''playlists/stirr_all.m3u'' \<mapsto> text)
            \<and> files (snd (generate_stirr_m3u env2 sort_arg w2))
                = (files w2)(''playlists/stirr_all.m3u'' \<mapsto> text)"
          by (rule exI, intro conjI) (rule c a b)+
        then show ?thesis by (rule disjI2)
      qed
    qed
  qed
qed

lemma world_old_fetch:
  "fetch_url (catalog_env data mk wr) STIRR_URL True True None False
     (log INFO ''--- Generating Stirr playlist ---'' world_old)
     = (Value data,
        log INFO ''Parsing JSON data.''
          (log INFO ''Decompressing gzipped content.''
            (log INFO (''Fetching URL: '' @ STIRR_URL)
              (log INFO ''--- Generating Stirr playlist ---'' world_old))))"
  by (simp add: catalog_env_def fixed_env_fetch)

theorem generate_deterministic_witness:
  "files (snd (generate_stirr_m3u (catalog_env data_name None WriteOk) ''name'' world0))
     = [''playlists/stirr_all.m3u'' \<mapsto> playlist_name]
   \<and> files (snd (generate_stirr_m3u (catalog_env data_name (Some OSError) WriteOk) ''name'' world_old))
     = [''playlists/stirr_all.m3u'' \<mapsto> playlist_name]"
proof -
  let ?e1 = "catalog_env data_name None WriteOk"
  let ?e2 = "catalog_env data_name (Some OSError) WriteOk"
  have d1: "OUTPUT_DIR \<in> dirs world0 \<or> makedirs ?e1 OUTPUT_DIR = None" by simp
  have d2: "OUTPUT_DIR \<in> dirs world_old \<or> makedirs ?e2 OUTPUT_DIR = None"
    by (simp add: world_old_def OUTPUT_DIR_def)
  have o1: "\<forall>p t. write_file ?e1 p t = WriteOk" by simp
  have o2: "\<forall>p t. write_file ?e2 p t = WriteOk" by simp
  note t = generate_deterministic [OF catalog_env_fetch world_old_fetch d1 d2 o1 o2, of "''name''"]
  have w: "files (snd (generate_stirr_m3u ?e1 ''name'' world0)) \<noteq> files world0"
  proof -
    have n: "no_channels data_name = Inr False"
      unfolding data_name_def by (rule no_channels_with_channels) simp
    from generate_playlist [OF catalog_env_fetch n playlist_name_eval]
    have "generate_stirr_m3u ?e1 ''name'' world0
            = write_m3u_file ?e1 ''stirr_all.m3u'' playlist_name fetched_world"
      by simp
    moreover have "files (snd (write_m3u_file ?e1 ''stirr_all.m3u'' playlist_name fetched_world))
          = (files fetched_world)(path_join OUTPUT_DIR ''stirr_all.m3u'' \<mapsto> playlist_name)"
      by (rule write_m3u_file_written [THEN conjunct2]) simp_all
    ultimately have "files (snd (generate_stirr_m3u ?e1 ''name'' world0)) ''playlists/stirr_all.m3u''
        = Some playlist_name"
      by (simp add: stirr_path)
    moreover have "files world0 ''playlists/stirr_all.m3u'' = None"
      by (simp add: world0_def)
    ultimately show ?thesis by auto
  qed
  from t w obtain tx where
    "snd (stirr_playlist data_name ''name'') = Inr tx"
    "files (snd (generate_stirr_m3u ?e1 ''name'' world0))
       = (files world0)(''playlists/stirr_all.m3u'' \<mapsto> tx)"
    "files (snd (generate_stirr_m3u ?e2 ''name'' world_old))
       = (files world_old)(''playlists/stirr_all.m3u'' \<mapsto> tx)"
    by (elim disjE conjE exE) simp_all
  with playlist_name_eval show ?thesis
    by (simp add: world0_def world_old_def)
qed

lemma channel_order_fallback:
  "sorted_channel_ids (JObj kvs) sort_arg = Inl e \<Longrightarrow>
   channel_order (JObj kvs) sort_arg = (True, Inr (map fst kvs))"
  by (simp add: channel_order_def)

lemma build_entries_channels_ok:
  assumes "list_all channel_ok (map snd kvs)"
  shows "\<exists>ls. build_entries (JObj kvs) (map fst kvs) = Inr ls"
proof -
  have "\<forall>k\<in>set (map fst kvs). \<exists>e. channel_lines (JObj kvs) k = Inr e"
  proof
    fix k assume "k \<in> set (map fst kvs)"
    then have "map_of kvs k \<noteq> None" by (simp add: map_of_eq_None_iff)
    then obtain ch where ch: "map_of kvs k = Some ch" by auto
    then have "(k, ch) \<in> set kvs" by (rule map_of_SomeD)
    then have "ch \<in> set (map snd kvs)" by force
    with assms have "channel_ok ch" by (auto simp: list_all_iff)
    with ch show "\<exists>e. channel_lines (JObj kvs) k = Inr e" by (rule channel_lines_ok)
  qed
  then show ?thesis by (rule build_entries_ok)
qed

text \<open>
  C4 (as amended). For every fetched catalog whose \<^verbatim>\<open>channels\<close> is a mapping: if the
  evaluation of the sort key raises, the warning is logged, the order is the insertion
  order of the catalog, and the entries are built in that order. When that succeeds, as
  it does for every catalog of well-formed channel records (so for a channel number that
  does not convert under the key \<^verbatim>\<open>chno\<close>), the text is handed to \<^verbatim>\<open>write_m3u_file\<close>; when
  an entry raises, the exception leaves the function after the warning and nothing is
  written.
\<close>

theorem sort_failure_fallback:
  assumes "fetch_url env STIRR_URL True True None False
             (log INFO ''--- Generating Stirr playlist ---'' w) = (Value (JObj d), w1)"
    and "map_of d ''channels'' = Some (JObj kvs)"
    and "sorted_channel_ids (JObj kvs) sort_arg = Inl e"
  shows "channel_order (JObj kvs) sort_arg = (True, Inr (map fst kvs))
       \<and> generate_stirr_m3u env sort_arg w =
           (case build_entries (JObj kvs) (map fst kvs) of
              Inr ls \<Rightarrow>
                write_m3u_file env ''stirr_all.m3u'' (concat (header_line # ls))
                  (log WARNING ''Sorting failed for Stirr, using default order. Error: '' w1)
            | Inl x \<Rightarrow>
                (Some x, log WARNING ''Sorting failed for Stirr, using default order. Error: '' w1))
       \<and> (list_all channel_ok (map snd kvs) \<longrightarrow>
            (\<exists>ls. build_entries (JObj kvs) (map fst kvs) = Inr ls))"
proof (intro conjI impI)
  from assms(3) show o: "channel_order (JObj kvs) sort_arg = (True, Inr (map fst kvs))"
    by (rule channel_order_fallback)
  from assms(2) have g: "py_get (JObj d) ''channels'' (JObj []) = Inr (JObj kvs)"
    by (simp add: dict_get_def)
  from stirr_playlist_channels [OF g, of sort_arg] o
  have p: "stirr_playlist (JObj d) sort_arg =
             (True, bind_exn (build_entries (JObj kvs) (map fst kvs)) (\<lambda>ls.
                      Inr (concat (header_line # ls))))"
    by (simp add: bind_exn_def)
  from no_channels_with_channels [OF assms(2)] have n: "no_channels (JObj d) = Inr False" .
  from generate_playlist [OF assms(1) n p]
  show "generate_stirr_m3u env sort_arg w =
           (case build_entries (JObj kvs) (map fst kvs) of
              Inr ls \<Rightarrow>
                write_m3u_file env ''stirr_all.m3u'' (concat (header_line # ls))
                  (log WARNING ''Sorting failed for Stirr, using default order. Error: '' w1)
            | Inl x \<Rightarrow>
                (Some x, log WARNING ''Sorting failed for Stirr, using default order. Error: '' w1))"
    by (cases "build_entries (JObj kvs) (map fst kvs)") (simp_all add: bind_exn_def)
next
  assume "list_all channel_ok (map snd kvs)"
  then show "\<exists>ls. build_entries (JObj kvs) (map fst kvs) = Inr ls"
    by (rule build_entries_channels_ok)
qed

theorem sort_failure_fallback_witness:
  "sorted_channel_ids (JObj catalog_badchno) ''chno'' = Inl ValueError
   \<and> channel_order (JObj catalog_badchno) ''chno'' = (True, Inr [''a'', ''b''])
   \<and> generate_stirr_m3u (catalog_env data_badchno None WriteOk) ''chno'' world0
       = write_m3u_file (catalog_env data_badchno None WriteOk) ''stirr_all.m3u'' playlist_badchno
           (log WARNING ''Sorting failed for Stirr, using default order. Error: '' fetched_world)
   \<and> files (snd (generate_stirr_m3u (catalog_env data_badchno None WriteOk) ''chno'' world0))
       = [''playlists/stirr_all.m3u'' \<mapsto> playlist_badchno]"
proof -
  let ?env = "catalog_env data_badchno None WriteOk"
  let ?w = "log WARNING ''Sorting failed for Stirr, using default order. Error: '' fetched_world"
  have s: "sorted_channel_ids (JObj catalog_badchno) ''chno'' = Inl ValueError"
    by code_simp
  have m: "map_of [(''channels'', JObj catalog_badchno)] ''channels'' = Some (JObj catalog_badchno)"
    by simp
  have k: "map fst catalog_badchno = [''a'', ''b'']"
    by (simp add: catalog_badchno_def)
  have b: "build_entries (JObj catalog_badchno) (map fst catalog_badchno) = Inr entries_badchno"
    by code_simp
  note t = sort_failure_fallback
      [OF catalog_env_fetch [of "JObj [(''channels'', JObj catalog_badchno)]"] m s, of None WriteOk]
  from t k have o: "channel_order (JObj catalog_badchno) ''chno'' = (True, Inr [''a'', ''b''])"
    by simp
  from t b have g: "generate_stirr_m3u ?env ''chno'' world0
       = write_m3u_file ?env ''stirr_all.m3u'' playlist_badchno ?w"
    by (simp add: data_badchno_def playlist_badchno_def)
  have "files (snd (write_m3u_file ?env ''stirr_all.m3u'' playlist_badchno ?w))
          = (files ?w)(path_join OUTPUT_DIR ''stirr_all.m3u'' \<mapsto> playlist_badchno)"
    by (rule write_m3u_file_written [THEN conjunct2]) simp_all
  with g have f: "files (snd (generate_stirr_m3u ?env ''chno'' world0))
       = [''playlists/stirr_all.m3u'' \<mapsto> playlist_badchno]"
    by (simp add: stirr_path)
  from s o g f show ?thesis by (intro conjI)
qed

text \<open>A name that is a number: the sort by name fails, and so does the entry.\<close>

theorem sort_failure_fallback_counterexample:
  "sorted_channel_ids (JObj [(''a'', JObj [(''name'', JInt 5)])]) ''name'' = Inl AttributeError
   \<and> generate_stirr_m3u (catalog_env data_badname None WriteOk) ''name'' world0
       = (Some AttributeError,
          log WARNING ''Sorting failed for Stirr, using default order. Error: '' fetched_world)
   \<and> files (log WARNING ''Sorting failed for Stirr, using default order. Error: '' fetched_world)
       = Map.empty"
proof (intro conjI)
  show "sorted_channel_ids (JObj [(''a'', JObj [(''name'', JInt 5)])]) ''name'' = Inl AttributeError"
    by code_simp
  have n: "no_channels data_badname = Inr False"
    unfolding data_badname_def by (rule no_channels_with_channels) simp
  have p: "stirr_playlist data_badname ''name'' = (True, Inl AttributeError)"
    by code_simp
  from generate_playlist [OF catalog_env_fetch n p]
  show "generate_stirr_m3u (catalog_env data_badname None WriteOk) ''name'' world0
       = (Some AttributeError,
          log WARNING ''Sorting failed for Stirr, using default order. Error: '' fetched_world)"
    by simp
  show "files (log WARNING ''Sorting failed for Stirr, using default order. Error: '' fetched_world)
       = Map.empty"
    by simp
qed

subsection \<open>The records of a catalog that has a playlist\<close>

text \<open>When a playlist is produced, every channel record is an object whose name, if
  present, is a string: the hypotheses on the records in the theorems on the order hold
  for every catalog that has a playlist.\<close>

lemma channel_lines_record:
  assumes "channel_lines (JObj kvs) k = Inr ls"
  shows "(\<exists>f. map_of kvs k = Some (JObj f))
       \<and> (\<forall>v. channel_field kvs k ''name'' = Some v \<longrightarrow> is_str v)"
proof -
  from channel_lines_success [OF assms] obtain f n where
    f: "map_of kvs k = Some (JObj f)"
    and n: "dict_get f ''name'' (JStr ''Unknown Channel'') = JStr n"
    by (elim exE conjE)
  from f have c: "channel_field kvs k ''name'' = map_of f ''name''"
    by (simp add: channel_field_def)
  have "is_str v" if "map_of f ''name'' = Some v" for v
    using that n by (simp add: dict_get_def)
  with f c show ?thesis by simp
qed

lemma playlist_records:
  assumes "map_of d ''channels'' = Some (JObj kvs)"
    and "stirr_playlist (JObj d) sort_arg = (failed, Inr tx)"
  shows "\<forall>k\<in>set (map fst kvs).
           (\<exists>f. map_of kvs k = Some (JObj f))
           \<and> (\<forall>v. channel_field kvs k ''name'' = Some v \<longrightarrow> is_str v)"
proof
  fix k assume k: "k \<in> set (map fst kvs)"
  from assms(1) have g: "py_get (JObj d) ''channels'' (JObj []) = Inr (JObj kvs)"
    by (simp add: dict_get_def)
  note p = stirr_playlist_channels [OF g, of sort_arg]
  from channel_order_obj [of kvs sort_arg] obtain ids where
    ids: "snd (channel_order (JObj kvs) sort_arg) = Inr ids" ..
  from p assms(2) have "fst (channel_order (JObj kvs) sort_arg) = failed" by simp
  with ids have o: "channel_order (JObj kvs) sort_arg = (failed, Inr ids)"
    by (cases "channel_order (JObj kvs) sort_arg") simp
  from p assms(2) ids obtain ls where ls: "build_entries (JObj kvs) ids = Inr ls"
    by (cases "build_entries (JObj kvs) ids") (auto simp: bind_exn_def)
  from build_entries_all2 [OF ls] obtain ess where
    ess: "list_all2 (\<lambda>k e. channel_lines (JObj kvs) k = Inr e) ids ess"
    by (elim exE conjE)
  from channel_order_mset [OF o] have "set ids = set (map fst kvs)" by (rule mset_eq_setD)
  with k have "k \<in> set ids" by simp
  with ess obtain e where "channel_lines (JObj kvs) k = Inr e"
    by (auto simp: list_all2_conv_all_nth in_set_conv_nth)
  then show "(\<exists>f. map_of kvs k = Some (JObj f))
           \<and> (\<forall>v. channel_field kvs k ''name'' = Some v \<longrightarrow> is_str v)"
    by (rule channel_lines_record)
qed

subsection \<open>The order of the channels in the playlist\<close>

text \<open>The text of a playlist that is produced: the header line, then the entries of the
  channels in the order that \<^verbatim>\<open>channel_order\<close> gives.\<close>

lemma playlist_entries:
  assumes "map_of d ''channels'' = Some (JObj kvs)"
    and "stirr_playlist (JObj d) sort_arg = (failed, Inr tx)"
  shows "\<exists>ids ess.
           channel_order (JObj kvs) sort_arg = (failed, Inr ids)
         \<and> list_all2
              (\<lambda>k ls. channel_lines (JObj kvs) k = Inr ls
                 \<and> (\<exists>rest. ls = [''#EXTINF:-1 channel-id=\"'' @ k @ ''\" tvg-id=\"'' @ k @ ''\" ''
                                     @ rest @ [CHR 0x0A],
                                   ''https://jmp2.uk/str-'' @ k @ ''.m3u8'' @ [CHR 0x0A]]))
              ids ess
         \<and> tx = concat (header_line # concat ess)"
proof -
  let ?chans = "JObj kvs"
  from assms(1) have g: "py_get (JObj d) ''channels'' (JObj []) = Inr ?chans"
    by (simp add: dict_get_def)
  note p = stirr_playlist_channels [OF g, of sort_arg]
  from channel_order_obj [of kvs sort_arg] obtain ids where
    ids: "snd (channel_order ?chans sort_arg) = Inr ids" ..
  from p assms(2) have f: "fst (channel_order ?chans sort_arg) = failed" by simp
  with ids have o: "channel_order ?chans sort_arg = (failed, Inr ids)"
    by (cases "channel_order ?chans sort_arg") simp
  from p assms(2) ids obtain ls where
    ls: "build_entries ?chans ids = Inr ls" "tx = concat (header_line # ls)"
    by (cases "build_entries ?chans ids") (auto simp: bind_exn_def)
  from build_entries_all2 [OF ls(1)] obtain ess where
    ess: "list_all2 (\<lambda>k e. channel_lines ?chans k = Inr e) ids ess" "ls = concat ess"
    by (elim exE conjE)
  have shape: "list_all2
                (\<lambda>k ls. channel_lines ?chans k = Inr ls
                   \<and> (\<exists>rest. ls = [''#EXTINF:-1 channel-id=\"'' @ k @ ''\" tvg-id=\"'' @ k @ ''\" ''
                                       @ rest @ [CHR 0x0A],
                                     ''https://jmp2.uk/str-'' @ k @ ''.m3u8'' @ [CHR 0x0A]]))
                ids ess"
    using ess(1)
  proof (rule list_all2_mono)
    fix k e assume c: "channel_lines ?chans k = Inr e"
    from c channel_lines_shape [OF c]
    show "channel_lines ?chans k = Inr e
            \<and> (\<exists>rest. e = [''#EXTINF:-1 channel-id=\"'' @ k @ ''\" tvg-id=\"'' @ k @ ''\" ''
                                @ rest @ [CHR 0x0A],
                              ''https://jmp2.uk/str-'' @ k @ ''.m3u8'' @ [CHR 0x0A]])"
      by (rule conjI)
  qed
  from ls(2) ess(2) have t: "tx = concat (header_line # concat ess)" by simp
  show ?thesis
    by (rule exI, rule exI, intro conjI) (rule o shape t)+
qed

lemma playlist_chno_eval: "stirr_playlist data_chno ''chno'' = (False, Inr playlist_chno)"
  by code_simp

lemma playlist_float_eval: "stirr_playlist data_float ''chno'' = (False, Inr playlist_float)"
  by code_simp

text \<open>
  C2 (as amended). With the sort key \<^verbatim>\<open>chno\<close>, for every fetched catalog whose channel
  numbers, where present, convert to integers with \<^verbatim>\<open>int\<close>, and for which the playlist text
  is produced: the sort succeeds (no warning), the text is handed to \<^verbatim>\<open>write_m3u_file\<close>, and
  it is the header line followed by the entries of the channels in ascending order of
  \<^verbatim>\<open>int(chno)\<close>, a channel without a number counting as 99999; so a channel without a
  number comes after every channel whose number converts to less than 99999. The order
  is the stable sort of the insertion order and has every channel of the catalog:
  channels whose numbers convert to the same integer, as 10.7 and 10.2 do, keep the order
  of the catalog. The order is that of the integers \<^verbatim>\<open>int\<close> gives, which for a number with
  a fraction is not the order of the numbers.
\<close>

theorem playlist_by_chno:
  assumes "fetch_url env STIRR_URL True True None False
             (log INFO ''--- Generating Stirr playlist ---'' w) = (Value (JObj d), w1)"
    and "map_of d ''channels'' = Some (JObj kvs)"
    and "\<forall>k\<in>set (map fst kvs). \<forall>v.
           channel_field kvs k ''chno'' = Some v \<longrightarrow> (\<exists>n. py_int v = Inr n)"
    and "stirr_playlist (JObj d) ''chno'' = (failed, Inr text)"
  shows "\<not> failed
       \<and> generate_stirr_m3u env ''chno'' w = write_m3u_file env ''stirr_all.m3u'' text w1
       \<and> (\<exists>ids ess.
             ids = sort_key (chno_number kvs) (map fst kvs)
           \<and> mset ids = mset (map fst kvs)
           \<and> sorted (map (chno_number kvs) ids)
           \<and> (\<forall>k\<in>set ids. \<forall>v. channel_field kvs k ''chno'' = Some v
                 \<longrightarrow> py_int v = Inr (chno_number kvs k))
           \<and> (\<forall>k\<in>set ids. channel_field kvs k ''chno'' = None \<longrightarrow> chno_number kvs k = 99999)
           \<and> (\<forall>i<length ids. \<forall>j<length ids.
                 channel_field kvs (ids ! i) ''chno'' = None \<and> chno_number kvs (ids ! j) < 99999
                 \<longrightarrow> j < i)
           \<and> list_all2
                (\<lambda>k ls. channel_lines (JObj kvs) k = Inr ls
                   \<and> (\<exists>rest. ls = [''#EXTINF:-1 channel-id=\"'' @ k @ ''\" tvg-id=\"'' @ k @ ''\" ''
                                       @ rest @ [CHR 0x0A],
                                     ''https://jmp2.uk/str-'' @ k @ ''.m3u8'' @ [CHR 0x0A]]))
                ids ess
           \<and> text = concat (header_line # concat ess))"
proof -
  from playlist_records [OF assms(2) assms(4)]
  have rec: "\<forall>k\<in>set (map fst kvs).
           (\<exists>f. map_of kvs k = Some (JObj f))
           \<and> (\<forall>v. channel_field kvs k ''name'' = Some v \<longrightarrow> is_str v)" .
  have h: "\<forall>k\<in>set (map fst kvs).
             (\<exists>f. map_of kvs k = Some (JObj f)) \<and>
             (\<forall>v. channel_field kvs k ''chno'' = Some v \<longrightarrow> (\<exists>n. py_int v = Inr n))"
  proof
    fix k assume k: "k \<in> set (map fst kvs)"
    from bspec [OF rec k] have "\<exists>f. map_of kvs k = Some (JObj f)" by (rule conjunct1)
    moreover from bspec [OF assms(3) k]
    have "\<forall>v. channel_field kvs k ''chno'' = Some v \<longrightarrow> (\<exists>n. py_int v = Inr n)" .
    ultimately show "(\<exists>f. map_of kvs k = Some (JObj f)) \<and>
             (\<forall>v. channel_field kvs k ''chno'' = Some v \<longrightarrow> (\<exists>n. py_int v = Inr n))"
      by (rule conjI)
  qed
  let ?ids = "sort_key (chno_number kvs) (map fst kvs)"
  from chno_order [OF h] have
    o: "channel_order (JObj kvs) ''chno'' = (False, Inr ?ids)"
    and srt: "sorted (map (chno_number kvs) ?ids)"
    and pos: "\<forall>i<length ?ids. \<forall>j<length ?ids.
                 channel_field kvs (?ids ! i) ''chno'' = None \<and> chno_number kvs (?ids ! j) < 99999
                 \<longrightarrow> j < i"
    by (elim exE conjE, simp)+
  from playlist_entries [OF assms(2) assms(4)] obtain ids ess where
    o2: "channel_order (JObj kvs) ''chno'' = (failed, Inr ids)"
    and shape: "list_all2
              (\<lambda>k ls. channel_lines (JObj kvs) k = Inr ls
                 \<and> (\<exists>rest. ls = [''#EXTINF:-1 channel-id=\"'' @ k @ ''\" tvg-id=\"'' @ k @ ''\" ''
                                     @ rest @ [CHR 0x0A],
                                   ''https://jmp2.uk/str-'' @ k @ ''.m3u8'' @ [CHR 0x0A]]))
              ids ess"
    and t: "text = concat (header_line # concat ess)"
    by (elim exE conjE)
  from o o2 have nf: "\<not> failed" and ie: "ids = ?ids" by simp_all
  from no_channels_with_channels [OF assms(2)] have n: "no_channels (JObj d) = Inr False" .
  from generate_playlist [OF assms(1) n assms(4)] nf
  have g: "generate_stirr_m3u env ''chno'' w = write_m3u_file env ''stirr_all.m3u'' text w1"
    by simp
  have ms: "mset ids = mset (map fst kvs)" unfolding ie by simp
  have srt2: "sorted (map (chno_number kvs) ids)" unfolding ie by (rule srt)
  have cv: "\<forall>k\<in>set ids. \<forall>v. channel_field kvs k ''chno'' = Some v
                 \<longrightarrow> py_int v = Inr (chno_number kvs k)"
  proof (intro ballI allI impI)
    fix k v assume k: "k \<in> set ids" and v: "channel_field kvs k ''chno'' = Some v"
    from k ie have "k \<in> set (map fst kvs)" by simp
    from bspec [OF assms(3) this] v obtain n where "py_int v = Inr n" by blast
    with v show "py_int v = Inr (chno_number kvs k)" by (simp add: chno_number_def)
  qed
  have ms9: "\<forall>k\<in>set ids. channel_field kvs k ''chno'' = None \<longrightarrow> chno_number kvs k = 99999"
    by (simp add: chno_number_def)
  have pos2: "\<forall>i<length ids. \<forall>j<length ids.
                 channel_field kvs (ids ! i) ''chno'' = None \<and> chno_number kvs (ids ! j) < 99999
                 \<longrightarrow> j < i"
    unfolding ie by (rule pos)
  have ex: "\<exists>ids ess.
             ids = sort_key (chno_number kvs) (map fst kvs)
           \<and> mset ids = mset (map fst kvs)
           \<and> sorted (map (chno_number kvs) ids)
           \<and> (\<forall>k\<in>set ids. \<forall>v. channel_field kvs k ''chno'' = Some v
                 \<longrightarrow> py_int v = Inr (chno_number kvs k))
           \<and> (\<forall>k\<in>set ids. channel_field kvs k ''chno'' = None \<longrightarrow> chno_number kvs k = 99999)
           \<and> (\<forall>i<length ids. \<forall>j<length ids.
                 channel_field kvs (ids ! i) ''chno'' = None \<and> chno_number kvs (ids ! j) < 99999
                 \<longrightarrow> j < i)
           \<and> list_all2
                (\<lambda>k ls. channel_lines (JObj kvs) k = Inr ls
                   \<and> (\<exists>rest. ls = [''#EXTINF:-1 channel-id=\"'' @ k @ ''\" tvg-id=\"'' @ k @ ''\" ''
                                       @ rest @ [CHR 0x0A],
                                     ''https://jmp2.uk/str-'' @ k @ ''.m3u8'' @ [CHR 0x0A]]))
                ids ess
           \<and> text = concat (header_line # concat ess)"
    by (rule exI, rule exI, intro conjI) (rule ie ms srt2 cv ms9 pos2 shape t)+
  from nf g ex show ?thesis by (intro conjI)
qed

text \<open>The numbers 30, 10, 20 and a channel without a number: the playlist has the
  channels b (10), c (20), a (30) and then d.\<close>

theorem playlist_by_chno_witness:
  "generate_stirr_m3u (catalog_env data_chno None WriteOk) ''chno'' world0 =
     write_m3u_file (catalog_env data_chno None WriteOk) ''stirr_all.m3u'' playlist_chno fetched_world
   \<and> sort_key (chno_number catalog_chno) (map fst catalog_chno) = [''b'', ''c'', ''a'', ''d'']
   \<and> map (chno_number catalog_chno) [''b'', ''c'', ''a'', ''d''] = [10, 20, 30, 99999]
   \<and> (\<exists>ess. list_all2
                (\<lambda>k ls. channel_lines (JObj catalog_chno) k = Inr ls
                   \<and> (\<exists>rest. ls = [''#EXTINF:-1 channel-id=\"'' @ k @ ''\" tvg-id=\"'' @ k @ ''\" ''
                                       @ rest @ [CHR 0x0A],
                                     ''https://jmp2.uk/str-'' @ k @ ''.m3u8'' @ [CHR 0x0A]]))
                [''b'', ''c'', ''a'', ''d''] ess
           \<and> playlist_chno = concat (header_line # concat ess))"
proof -
  have m: "map_of [(''channels'', JObj catalog_chno)] ''channels'' = Some (JObj catalog_chno)"
    by simp
  have h: "\<forall>k\<in>set (map fst catalog_chno). \<forall>v.
           channel_field catalog_chno k ''chno'' = Some v \<longrightarrow> (\<exists>n. py_int v = Inr n)"
    by (simp add: catalog_chno_def channel_field_def)
  have e: "sort_key (chno_number catalog_chno) (map fst catalog_chno) = [''b'', ''c'', ''a'', ''d'']"
    by (simp add: catalog_chno_def chno_number_def channel_field_def)
  have n: "map (chno_number catalog_chno) [''b'', ''c'', ''a'', ''d''] = [10, 20, 30, 99999]"
    by (simp add: catalog_chno_def chno_number_def channel_field_def)
  note t = playlist_by_chno [OF catalog_env_fetch [of "JObj [(''channels'', JObj catalog_chno)]"] m h
      playlist_chno_eval [unfolded data_chno_def], of None WriteOk]
  from t have g: "generate_stirr_m3u (catalog_env data_chno None WriteOk) ''chno'' world0 =
     write_m3u_file (catalog_env data_chno None WriteOk) ''stirr_all.m3u'' playlist_chno fetched_world"
    by (simp add: data_chno_def)
  from t obtain ids ess where
    i: "ids = sort_key (chno_number catalog_chno) (map fst catalog_chno)"
    and sh: "list_all2
                (\<lambda>k ls. channel_lines (JObj catalog_chno) k = Inr ls
                   \<and> (\<exists>rest. ls = [''#EXTINF:-1 channel-id=\"'' @ k @ ''\" tvg-id=\"'' @ k @ ''\" ''
                                       @ rest @ [CHR 0x0A],
                                     ''https://jmp2.uk/str-'' @ k @ ''.m3u8'' @ [CHR 0x0A]]))
                ids ess"
    and pn: "playlist_chno = concat (header_line # concat ess)"
    by (elim conjE exE)
  from i e have ie: "ids = [''b'', ''c'', ''a'', ''d'']" by simp
  have x: "\<exists>ess. list_all2
                (\<lambda>k ls. channel_lines (JObj catalog_chno) k = Inr ls
                   \<and> (\<exists>rest. ls = [''#EXTINF:-1 channel-id=\"'' @ k @ ''\" tvg-id=\"'' @ k @ ''\" ''
                                       @ rest @ [CHR 0x0A],
                                     ''https://jmp2.uk/str-'' @ k @ ''.m3u8'' @ [CHR 0x0A]]))
                [''b'', ''c'', ''a'', ''d''] ess
           \<and> playlist_chno = concat (header_line # concat ess)"
    by (rule exI, intro conjI) (rule sh [unfolded ie] pn)+
  from g e n x show ?thesis by (intro conjI)
qed

text \<open>The channel numbers 10.7, 10.2 and 9.9, which \<^verbatim>\<open>int\<close> converts to 10, 10 and 9: the
  sort succeeds and the playlist that is written has 9.9, then 10.7, then 10.2.\<close>

theorem playlist_by_chno_counterexample:
  "channel_order (JObj catalog_float) ''chno'' = (False, Inr [''c'', ''a'', ''b''])
   \<and> files (snd (generate_stirr_m3u (catalog_env data_float None WriteOk) ''chno'' world0))
       ''playlists/stirr_all.m3u'' = Some playlist_float"
proof
  show "channel_order (JObj catalog_float) ''chno'' = (False, Inr [''c'', ''a'', ''b''])"
    by code_simp
next
  have n: "no_channels data_float = Inr False"
    unfolding data_float_def by (rule no_channels_with_channels) simp
  from generate_playlist [OF catalog_env_fetch n playlist_float_eval]
  have g: "generate_stirr_m3u (catalog_env data_float None WriteOk) ''chno'' world0
             = write_m3u_file (catalog_env data_float None WriteOk) ''stirr_all.m3u''
                 playlist_float fetched_world"
    by simp
  have "files (snd (write_m3u_file (catalog_env data_float None WriteOk) ''stirr_all.m3u''
                 playlist_float fetched_world))
          = (files fetched_world)(path_join OUTPUT_DIR ''stirr_all.m3u'' \<mapsto> playlist_float)"
    by (rule write_m3u_file_written [THEN conjunct2]) simp_all
  with g show "files (snd (generate_stirr_m3u (catalog_env data_float None WriteOk) ''chno'' world0))
       ''playlists/stirr_all.m3u'' = Some playlist_float"
    by (simp add: stirr_path)
qed

text \<open>
  C3. With the sort key \<^verbatim>\<open>name\<close>, the default (the branch taken for every key other than
  \<^verbatim>\<open>chno\<close>), the playlist that \<^verbatim>\<open>generate_stirr_m3u\<close> produces has the channels in ascending
  order of their lower-cased name, a channel without a name counting as the empty
  string; so a channel without a name comes before every channel with a non-empty name.
  The sort succeeds (no warning), the text is handed to \<^verbatim>\<open>write_m3u_file\<close>, and it is the
  header line followed by the entries of the channels in that order, the stable sort of
  the insertion order.
\<close>

theorem playlist_by_name:
  assumes "fetch_url env STIRR_URL True True None False
             (log INFO ''--- Generating Stirr playlist ---'' w) = (Value (JObj d), w1)"
    and "map_of d ''channels'' = Some (JObj kvs)"
    and "sort_arg \<noteq> ''chno''"
    and "stirr_playlist (JObj d) sort_arg = (failed, Inr text)"
  shows "\<not> failed
       \<and> generate_stirr_m3u env sort_arg w = write_m3u_file env ''stirr_all.m3u'' text w1
       \<and> (\<exists>ids ess.
             ids = sort_key (lower_name kvs) (map fst kvs)
           \<and> mset ids = mset (map fst kvs)
           \<and> sorted (map (lower_name kvs) ids)
           \<and> (\<forall>k\<in>set ids. \<forall>n. channel_field kvs k ''name'' = Some (JStr n)
                 \<longrightarrow> lower_name kvs k = str_lower n)
           \<and> (\<forall>k\<in>set ids. channel_field kvs k ''name'' = None \<longrightarrow> lower_name kvs k = [])
           \<and> (\<forall>i<length ids. \<forall>j<length ids.
                 channel_field kvs (ids ! i) ''name'' = None
                 \<and> (\<exists>n. channel_field kvs (ids ! j) ''name'' = Some (JStr n) \<and> n \<noteq> [])
                 \<longrightarrow> i < j)
           \<and> list_all2
                (\<lambda>k ls. channel_lines (JObj kvs) k = Inr ls
                   \<and> (\<exists>rest. ls = [''#EXTINF:-1 channel-id=\"'' @ k @ ''\" tvg-id=\"'' @ k @ ''\" ''
                                       @ rest @ [CHR 0x0A],
                                     ''https://jmp2.uk/str-'' @ k @ ''.m3u8'' @ [CHR 0x0A]]))
                ids ess
           \<and> text = concat (header_line # concat ess))"
proof -
  from playlist_records [OF assms(2) assms(4)]
  have h: "\<forall>k\<in>set (map fst kvs).
           (\<exists>f. map_of kvs k = Some (JObj f))
           \<and> (\<forall>v. channel_field kvs k ''name'' = Some v \<longrightarrow> is_str v)" .
  let ?ids = "sort_key (lower_name kvs) (map fst kvs)"
  from name_order [OF h assms(3)] have
    o: "channel_order (JObj kvs) sort_arg = (False, Inr ?ids)"
    and srt: "sorted (map (lower_name kvs) ?ids)"
    and pos: "\<forall>i<length ?ids. \<forall>j<length ?ids.
                 channel_field kvs (?ids ! i) ''name'' = None
                 \<and> (\<exists>n. channel_field kvs (?ids ! j) ''name'' = Some (JStr n) \<and> n \<noteq> [])
                 \<longrightarrow> i < j"
    by (elim exE conjE, simp)+
  from playlist_entries [OF assms(2) assms(4)] obtain ids ess where
    o2: "channel_order (JObj kvs) sort_arg = (failed, Inr ids)"
    and shape: "list_all2
              (\<lambda>k ls. channel_lines (JObj kvs) k = Inr ls
                 \<and> (\<exists>rest. ls = [''#EXTINF:-1 channel-id=\"'' @ k @ ''\" tvg-id=\"'' @ k @ ''\" ''
                                     @ rest @ [CHR 0x0A],
                                   ''https://jmp2.uk/str-'' @ k @ ''.m3u8'' @ [CHR 0x0A]]))
              ids ess"
    and t: "text = concat (header_line # concat ess)"
    by (elim exE conjE)
  from o o2 have nf: "\<not> failed" and ie: "ids = ?ids" by simp_all
  from no_channels_with_channels [OF assms(2)] have n: "no_channels (JObj d) = Inr False" .
  from generate_playlist [OF assms(1) n assms(4)] nf
  have g: "generate_stirr_m3u env sort_arg w = write_m3u_file env ''stirr_all.m3u'' text w1"
    by simp
  have ms: "mset ids = mset (map fst kvs)" unfolding ie by simp
  have srt2: "sorted (map (lower_name kvs) ids)" unfolding ie by (rule srt)
  have lw: "\<forall>k\<in>set ids. \<forall>n. channel_field kvs k ''name'' = Some (JStr n)
                 \<longrightarrow> lower_name kvs k = str_lower n"
    by (simp add: lower_name_def)
  have em: "\<forall>k\<in>set ids. channel_field kvs k ''name'' = None \<longrightarrow> lower_name kvs k = []"
    by (simp add: lower_name_def)
  have pos2: "\<forall>i<length ids. \<forall>j<length ids.
                 channel_field kvs (ids ! i) ''name'' = None
                 \<and> (\<exists>n. channel_field kvs (ids ! j) ''name'' = Some (JStr n) \<and> n \<noteq> [])
                 \<longrightarrow> i < j"
    unfolding ie by (rule pos)
  have ex: "\<exists>ids ess.
             ids = sort_key (lower_name kvs) (map fst kvs)
           \<and> mset ids = mset (map fst kvs)
           \<and> sorted (map (lower_name kvs) ids)
           \<and> (\<forall>k\<in>set ids. \<forall>n. channel_field kvs k ''name'' = Some (JStr n)
                 \<longrightarrow> lower_name kvs k = str_lower n)
           \<and> (\<forall>k\<in>set ids. channel_field kvs k ''name'' = None \<longrightarrow> lower_name kvs k = [])
           \<and> (\<forall>i<length ids. \<forall>j<length ids.
                 channel_field kvs (ids ! i) ''name'' = None
                 \<and> (\<exists>n. channel_field kvs (ids ! j) ''name'' = Some (JStr n) \<and> n \<noteq> [])
                 \<longrightarrow> i < j)
           \<and> list_all2
                (\<lambda>k ls. channel_lines (JObj kvs) k = Inr ls
                   \<and> (\<exists>rest. ls = [''#EXTINF:-1 channel-id=\"'' @ k @ ''\" tvg-id=\"'' @ k @ ''\" ''
                                       @ rest @ [CHR 0x0A],
                                     ''https://jmp2.uk/str-'' @ k @ ''.m3u8'' @ [CHR 0x0A]]))
                ids ess
           \<and> text = concat (header_line # concat ess)"
    by (rule exI, rule exI, intro conjI) (rule ie ms srt2 lw em pos2 shape t)+
  from nf g ex show ?thesis by (intro conjI)
qed

text \<open>The names zebra and Apple and a channel without a name: the playlist has the
  channel without a name, then Apple, then zebra.\<close>

theorem playlist_by_name_witness:
  "generate_stirr_m3u (catalog_env data_name None WriteOk) ''name'' world0 =
     write_m3u_file (catalog_env data_name None WriteOk) ''stirr_all.m3u'' playlist_name fetched_world
   \<and> sort_key (lower_name catalog_name) (map fst catalog_name) = [''3'', ''2'', ''1'']
   \<and> map (lower_name catalog_name) [''3'', ''2'', ''1''] = [[], ''apple'', ''zebra'']
   \<and> (\<exists>ess. list_all2
                (\<lambda>k ls. channel_lines (JObj catalog_name) k = Inr ls
                   \<and> (\<exists>rest. ls = [''#EXTINF:-1 channel-id=\"'' @ k @ ''\" tvg-id=\"'' @ k @ ''\" ''
                                       @ rest @ [CHR 0x0A],
                                     ''https://jmp2.uk/str-'' @ k @ ''.m3u8'' @ [CHR 0x0A]]))
                [''3'', ''2'', ''1''] ess
           \<and> playlist_name = concat (header_line # concat ess))"
proof -
  have m: "map_of [(''channels'', JObj catalog_name)] ''channels'' = Some (JObj catalog_name)"
    by simp
  have nc: "''name'' \<noteq> ''chno''" by simp
  have n0: "map (lower_name catalog_name) [''1'', ''2'', ''3''] = [''zebra'', ''apple'', []]"
    by code_simp
  then have e: "sort_key (lower_name catalog_name) (map fst catalog_name) = [''3'', ''2'', ''1'']"
    by (simp add: catalog_name_def)
  from n0 have n: "map (lower_name catalog_name) [''3'', ''2'', ''1''] = [[], ''apple'', ''zebra'']"
    by simp
  note t = playlist_by_name [OF catalog_env_fetch [of "JObj [(''channels'', JObj catalog_name)]"] m nc
      playlist_name_eval [unfolded data_name_def], of None WriteOk]
  from t have g: "generate_stirr_m3u (catalog_env data_name None WriteOk) ''name'' world0 =
     write_m3u_file (catalog_env data_name None WriteOk) ''stirr_all.m3u'' playlist_name fetched_world"
    by (simp add: data_name_def)
  from t obtain ids ess where
    i: "ids = sort_key (lower_name catalog_name) (map fst catalog_name)"
    and sh: "list_all2
                (\<lambda>k ls. channel_lines (JObj catalog_name) k = Inr ls
                   \<and> (\<exists>rest. ls = [''#EXTINF:-1 channel-id=\"'' @ k @ ''\" tvg-id=\"'' @ k @ ''\" ''
                                       @ rest @ [CHR 0x0A],
                                     ''https://jmp2.uk/str-'' @ k @ ''.m3u8'' @ [CHR 0x0A]]))
                ids ess"
    and pn: "playlist_name = concat (header_line # concat ess)"
    by (elim conjE exE)
  from i e have ie: "ids = [''3'', ''2'', ''1'']" by simp
  have x: "\<exists>ess. list_all2
                (\<lambda>k ls. channel_lines (JObj catalog_name) k = Inr ls
                   \<and> (\<exists>rest. ls = [''#EXTINF:-1 channel-id=\"'' @ k @ ''\" tvg-id=\"'' @ k @ ''\" ''
                                       @ rest @ [CHR 0x0A],
                                     ''https://jmp2.uk/str-'' @ k @ ''.m3u8'' @ [CHR 0x0A]]))
                [''3'', ''2'', ''1''] ess
           \<and> playlist_name = concat (header_line # concat ess)"
    by (rule exI, intro conjI) (rule sh [unfolded ie] pn)+
  from g e n x show ?thesis by (intro conjI)
qed

end
